theory Spec2Isabelle
  imports Main "HOL-Library.AList" "HOL-Library.Multiset"
begin

section \<open>JSON values\<close>

text \<open>
  The documents built by \<^verbatim>\<open>status_json.py\<close> are Python values made of \<^verbatim>\<open>None\<close>,
  booleans, integers, strings, lists and dictionaries. Dictionary keys are strings
  (child names, field names) or integers (build numbers, step indices). A dictionary is
  an association list with distinct keys; a Python 2 dictionary has no defined order, so
  the order of the association list carries no meaning. Tuples are modelled as lists
  (\<^verbatim>\<open>FilterOut\<close> converts them anyway) and floating point numbers are left out.
\<close>

datatype jkey = KStr string | KInt int

datatype json =
    JNull
  | JBool bool
  | JInt int
  | JStr string
  | JList "json list"
  | JDict "(jkey \<times> json) list"

section \<open>FilterOut\<close>

text \<open>
  \<^verbatim>\<open>x == False\<close> in Python: \<^verbatim>\<open>bool\<close> is a subclass of \<^verbatim>\<open>int\<close> and
  \<^verbatim>\<open>False == 0\<close>, so the integer zero compares equal to \<^verbatim>\<open>False\<close>.
\<close>

fun py_eq_False :: "json \<Rightarrow> bool" where
  "py_eq_False (JBool b) = (\<not> b)"
| "py_eq_False (JInt n) = (n = 0)"
| "py_eq_False _ = False"

text \<open>
  The membership test \<^verbatim>\<open>x in ('', False, None, [], {}, ())\<close>: \<^verbatim>\<open>in\<close> compares
  with \<^verbatim>\<open>==\<close> against each element of the tuple in turn.
\<close>

definition in_empties :: "json \<Rightarrow> bool" where
  "in_empties x \<longleftrightarrow>
     x = JStr [] \<or> py_eq_False x \<or> x = JNull \<or> x = JList [] \<or> x = JDict []"

text \<open>
  \<^verbatim>\<open>
  def FilterOut(data):
      if isinstance(data, (list, tuple)):
          items = map(FilterOut, data)
          if not filter(lambda x: not x in ('', False, None, [], {}, ()), items):
              return None
          return items
      elif isinstance(data, dict):
          return dict(filter(lambda x: not x[1] in ('', False, None, [], {}, ()),
                             [(k, FilterOut(v)) for (k, v) in data.iteritems()]))
      else:
          return data
  \<close>
  \<open>FilterOut_items\<close> is \<^verbatim>\<open>map(FilterOut, data)\<close> and \<open>FilterOut_pairs\<close> is the list
  comprehension over \<^verbatim>\<open>data.iteritems()\<close>.
\<close>

fun FilterOut :: "json \<Rightarrow> json"
  and FilterOut_items :: "json list \<Rightarrow> json list"
  and FilterOut_pairs :: "(jkey \<times> json) list \<Rightarrow> (jkey \<times> json) list" where
  "FilterOut (JList data) =
     (let items = FilterOut_items data
      in if filter (\<lambda>x. \<not> in_empties x) items = [] then JNull else JList items)"
| "FilterOut (JDict data) =
     JDict (filter (\<lambda>x. \<not> in_empties (snd x)) (FilterOut_pairs data))"
| "FilterOut JNull = JNull"
| "FilterOut (JBool b) = JBool b"
| "FilterOut (JInt n) = JInt n"
| "FilterOut (JStr s) = JStr s"
| "FilterOut_items [] = []"
| "FilterOut_items (x # xs) = FilterOut x # FilterOut_items xs"
| "FilterOut_pairs [] = []"
| "FilterOut_pairs ((k, v) # kvs) = (k, FilterOut v) # FilterOut_pairs kvs"

section \<open>The pending build queue\<close>

text \<open>
  A \<^verbatim>\<open>BuildRequestStatus\<close> object. Its class lives in \<^verbatim>\<open>buildbot.status.buildrequest\<close>;
  the fields are what the calls of this file read from it: the submit time fetched by
  \<^verbatim>\<open>getSubmitTime()\<close> (seconds since the epoch), the source specification (codebase to
  branch) that the codebase filter looks at, and the dictionary \<^verbatim>\<open>asDict_async()\<close> yields.
\<close>

record build_request_status =
  br_buildername :: string
  brid :: int
  br_sources :: "(string \<times> string) list"
  getSubmitTime :: int
  asDict_async :: json

text \<open>An entry of \<^verbatim>\<open>getUnclaimedBuildRequest\<close>: \<^verbatim>\<open>br_dict['buildername']\<close>, \<^verbatim>\<open>br_dict['brid']\<close>.\<close>

record br_dict =
  d_buildername :: string
  d_brid :: int

text \<open>
  \<^verbatim>\<open>
  def asDict(self, request):
      unclaimed_brq = yield self.status.master.db.buildrequests.getUnclaimedBuildRequest(sorted=True)
      output = []
      defers = []
      for br_dict in unclaimed_brq:
          br = BuildRequestStatus(br_dict['buildername'], br_dict['brid'], self.status)
          d = br.asDict_async()
          defers.append(d)
      for d in defers:
          r = yield d
          output.append(r)
      defer.returnValue(output)
  \<close>
  The list the database returns and the constructor \<^verbatim>\<open>BuildRequestStatus\<close> are parameters.
  The request (and with it the \<^verbatim>\<open>codebases\<close> arguments) is an argument that the
  method never reads.
\<close>

definition QueueJsonResource_asDict ::
  "(string \<Rightarrow> int \<Rightarrow> build_request_status) \<Rightarrow> br_dict list \<Rightarrow> (string \<times> string) list \<Rightarrow> json list" where
  "QueueJsonResource_asDict BuildRequestStatus unclaimed_brq codebases =
     map (\<lambda>d. asDict_async (BuildRequestStatus (d_buildername d) (d_brid d))) unclaimed_brq"

text \<open>
  The loop of \<^verbatim>\<open>SinglePendingBuildsJsonResource.asDict\<close> that filters and fetches:
  \<^verbatim>\<open>
  pending = []
  for br in builds:
      result = True
      if len(codebases) > 0:
          result = yield foundCodebasesInPendingBuild(br, codebases)
      if result:
          br.sort_value = yield br.getSubmitTime()
          pending.append(br)
  \<close>
  The attribute \<^verbatim>\<open>sort_value\<close> set on the object is the first component of the pair.
  \<^verbatim>\<open>foundCodebasesInPendingBuild\<close> (of \<^verbatim>\<open>buildbot.status.web.builder\<close>) is a parameter.
\<close>

fun pending_loop ::
  "(build_request_status \<Rightarrow> (string \<times> string) list \<Rightarrow> bool) \<Rightarrow> (string \<times> string) list \<Rightarrow>
   build_request_status list \<Rightarrow> (int \<times> build_request_status) list" where
  "pending_loop found codebases [] = []"
| "pending_loop found codebases (br # builds) =
     (let result = (if length codebases > 0 then found br codebases else True)
      in if result then (getSubmitTime br, br) # pending_loop found codebases builds
         else pending_loop found codebases builds)"

text \<open>
  \<^verbatim>\<open>
  def sort_queue(br, otherBR):
      return br.sort_value - otherBR.sort_value
  pending = sorted(pending, cmp=sort_queue)
  output = []
  for b in pending:
      d = yield b.asDict_async(request)
      output.append(d)
  \<close>
  Python's \<^verbatim>\<open>sorted\<close> is stable, and the comparison is the order of the integers
  \<^verbatim>\<open>sort_value\<close>; the stable sort of a list by a key is unique, and \<^const>\<open>sort_key\<close> is it.
\<close>

definition sorted_pending ::
  "(build_request_status \<Rightarrow> (string \<times> string) list \<Rightarrow> bool) \<Rightarrow> (string \<times> string) list \<Rightarrow>
   build_request_status list \<Rightarrow> build_request_status list" where
  "sorted_pending found codebases builds = map snd (sort_key fst (pending_loop found codebases builds))"

definition SinglePendingBuildsJsonResource_asDict ::
  "(build_request_status \<Rightarrow> (string \<times> string) list \<Rightarrow> bool) \<Rightarrow> (string \<times> string) list \<Rightarrow>
   build_request_status list \<Rightarrow> json list" where
  "SinglePendingBuildsJsonResource_asDict found codebases builds =
     map asDict_async (sorted_pending found codebases builds)"

text \<open>
  Modelled from the spec: \<^verbatim>\<open>foundCodebasesInPendingBuild\<close>, whose code is in
  \<^verbatim>\<open>buildbot.status.web.builder\<close>: the source specification of the entry matches every
  supplied codebase constraint.
\<close>

definition foundCodebasesInPendingBuild :: "build_request_status \<Rightarrow> (string \<times> string) list \<Rightarrow> bool" where
  "foundCodebasesInPendingBuild br codebases \<longleftrightarrow>
     list_all (\<lambda>(k, v). map_of (br_sources br) k = Some v) codebases"

text \<open>A pending request of the builder \<^verbatim>\<open>demo\<close>, for the examples.\<close>

definition br_example :: "int \<Rightarrow> int \<Rightarrow> string \<Rightarrow> build_request_status" where
  "br_example i t branch =
     \<lparr>br_buildername = ''demo'', brid = i, br_sources = [(''katana'', branch)],
      getSubmitTime = t, asDict_async = JDict [(KStr ''brid'', JInt i), (KStr ''submittedAt'', JInt t)]\<rparr>"

section \<open>Python strings and dictionaries\<close>

text \<open>The exceptions the modelled code can raise.\<close>

datatype error =
  IndexError | KeyError | ValueError | TypeError | AttributeError | NotImplementedError | RuntimeError

text \<open>\<^verbatim>\<open>s.strip('/')\<close>: the separator is removed from both ends.\<close>

definition strip :: "char \<Rightarrow> string \<Rightarrow> string" where
  "strip c s = rev (dropWhile (\<lambda>x. x = c) (rev (dropWhile (\<lambda>x. x = c) s)))"

text \<open>\<^verbatim>\<open>s.count('/')\<close> for a separator of one character.\<close>

definition count_char :: "char \<Rightarrow> string \<Rightarrow> nat" where
  "count_char c s = length (filter (\<lambda>x. x = c) s)"

text \<open>\<^verbatim>\<open>s.split('/')\<close>: the pieces between the separators, empty pieces included.\<close>

fun split :: "char \<Rightarrow> string \<Rightarrow> string list" where
  "split sep [] = [[]]"
| "split sep (c # cs) =
     (if c = sep then [] # split sep cs
      else (case split sep cs of w # ws \<Rightarrow> (c # w) # ws | [] \<Rightarrow> [[c]]))"

text \<open>
  \<^verbatim>\<open>d[k] = v\<close> on a dictionary is \<^const>\<open>AList.update\<close>. \<^verbatim>\<open>node.update(other)\<close> with a
  dictionary argument assigns every item of the argument.
\<close>

definition update_items :: "(jkey \<times> json) list \<Rightarrow> (jkey \<times> json) list \<Rightarrow> (jkey \<times> json) list" where
  "update_items node other = fold (\<lambda>(k, v). AList.update k v) other node"

text \<open>
  With an argument that is not a dictionary, \<^verbatim>\<open>dict.update\<close> iterates over it and wants
  every element to be a sequence of two items, a hashable key and a value. A value that
  cannot be iterated is a \<^verbatim>\<open>TypeError\<close>, an element of another length a
  \<^verbatim>\<open>ValueError\<close>, an unhashable key a \<^verbatim>\<open>TypeError\<close>. Iterating a dictionary gives
  its keys, iterating a string its characters. The keys \<^verbatim>\<open>None\<close>, \<^verbatim>\<open>True\<close> and
  \<^verbatim>\<open>False\<close>, which no rendering of this program produces, are \<^verbatim>\<open>TypeError\<close> here
  as well: the type of keys has strings and integers only.
\<close>

fun key_of :: "json \<Rightarrow> error + jkey" where
  "key_of (JStr s) = Inr (KStr s)"
| "key_of (JInt n) = Inr (KInt n)"
| "key_of _ = Inl TypeError"

fun json_of_key :: "jkey \<Rightarrow> json" where
  "json_of_key (KStr s) = JStr s"
| "json_of_key (KInt n) = JInt n"

fun pair_of :: "json \<Rightarrow> error + jkey \<times> json" where
  "pair_of (JList [a, b]) = (case key_of a of Inl e \<Rightarrow> Inl e | Inr k \<Rightarrow> Inr (k, b))"
| "pair_of (JList _) = Inl ValueError"
| "pair_of (JStr [a, b]) = Inr (KStr [a], JStr [b])"
| "pair_of (JStr _) = Inl ValueError"
| "pair_of (JDict [(k, _), (k', _)]) = Inr (k, json_of_key k')"
| "pair_of (JDict _) = Inl ValueError"
| "pair_of _ = Inl TypeError"

fun update_seq :: "(jkey \<times> json) list \<Rightarrow> json list \<Rightarrow> error + (jkey \<times> json) list" where
  "update_seq node [] = Inr node"
| "update_seq node (x # xs) =
     (case pair_of x of Inl e \<Rightarrow> Inl e | Inr (k, v) \<Rightarrow> update_seq (AList.update k v node) xs)"

fun dict_update :: "(jkey \<times> json) list \<Rightarrow> json \<Rightarrow> error + (jkey \<times> json) list" where
  "dict_update node (JDict other) = Inr (update_items node other)"
| "dict_update node (JList xs) = update_seq node xs"
| "dict_update node (JStr s) = update_seq node (map (\<lambda>c. JStr [c]) s)"
| "dict_update node _ = Inl TypeError"

section \<open>JsonResource.content: composing a selection\<close>

text \<open>
  \<^verbatim>\<open>content\<close> calls three things on whatever resource the walk has reached: the
  attribute \<^verbatim>\<open>isLeaf\<close>, the method \<^verbatim>\<open>getChildWithDefault(pathElement, request)\<close> and,
  when the resource has one, the method \<^verbatim>\<open>asDict(request)\<close>. Python finds them by the
  class of the object at run time; here they are the fields of a record, over a type
  \<open>'n\<close> of references to resources and a type \<open>'s\<close> of the state that resolving and
  rendering may change. The argument of type \<open>string list\<close> is \<^verbatim>\<open>request.postpath\<close>
  at the time of the call. The classes of this file are put in these fields below.
\<close>

record ('n, 's) methods =
  isLeaf :: "'n \<Rightarrow> bool"
  getChildWithDefault :: "'s \<Rightarrow> 'n \<Rightarrow> string \<Rightarrow> string list \<Rightarrow> error + 'n \<times> 's"
  hasattr_asDict :: "'s \<Rightarrow> 'n \<Rightarrow> bool"
  asDict :: "'s \<Rightarrow> 'n \<Rightarrow> string list \<Rightarrow> error + json \<times> 's"

text \<open>
  The end of the body of the loop over the selection:
  \<^verbatim>\<open>
  if hasattr(child, 'asDict'):
      child_dict = yield defer.maybeDeferred(lambda: child.asDict(request))
  else:
      child_dict = {
          'error': 'Not available',
      }
  node.update(child_dict)
  \<close>
  The result is the dictionary \<^verbatim>\<open>node\<close> after the update.
\<close>

definition not_available :: json where
  "not_available = JDict [(KStr ''error'', JStr ''Not available'')]"

definition render_into ::
  "('n, 's) methods \<Rightarrow> 's \<Rightarrow> 'n \<Rightarrow> string list \<Rightarrow> (jkey \<times> json) list \<Rightarrow> error + (jkey \<times> json) list \<times> 's" where
  "render_into M st child postpath node =
     (case (if hasattr_asDict M st child then asDict M st child postpath
            else Inr (not_available, st)) of
        Inl e \<Rightarrow> Inl e
      | Inr (child_dict, st') \<Rightarrow>
          (case dict_update node child_dict of Inl e \<Rightarrow> Inl e | Inr node' \<Rightarrow> Inr (node', st')))"

text \<open>
  The walk of one selected path and the update at its end:
  \<^verbatim>\<open>
  while request.postpath and not child.isLeaf:
      pathElement = request.postpath.pop(0)
      node[pathElement] = {}
      node = node[pathElement]
      request.prepath.append(pathElement)
      child = child.getChildWithDefault(pathElement, request)
  \<close>
  \<^verbatim>\<open>node\<close> is a pointer into the document: the assignment stores a new empty
  dictionary in the dictionary \<^verbatim>\<open>node\<close> points to, and \<^verbatim>\<open>node\<close> moves into the new
  one, which the rest of the walk and the final update then fill. \<open>walk\<close> returns
  what the dictionary that \<^verbatim>\<open>node\<close> pointed to at the start holds at the end: its
  old items, and under \<^verbatim>\<open>pathElement\<close> what the rest of the walk made of the new
  empty dictionary.
\<close>

fun walk ::
  "('n, 's) methods \<Rightarrow> 's \<Rightarrow> 'n \<Rightarrow> string list \<Rightarrow> (jkey \<times> json) list \<Rightarrow> error + (jkey \<times> json) list \<times> 's" where
  "walk M st child [] node = render_into M st child [] node"
| "walk M st child (pathElement # postpath) node =
     (if isLeaf M child then render_into M st child (pathElement # postpath) node
      else (case getChildWithDefault M st child pathElement postpath of
              Inl e \<Rightarrow> Inl e
            | Inr (child', st') \<Rightarrow>
                (case walk M st' child' postpath [] of
                   Inl e \<Rightarrow> Inl e
                 | Inr (sub, st'') \<Rightarrow> Inr (AList.update (KStr pathElement) (JDict sub) node, st''))))"

text \<open>
  \<^verbatim>\<open>
  select = [s.strip('/') for s in select]
  select.sort(cmp=lambda x, y: cmp(x.count('/'), y.count('/')), reverse=True)
  \<close>
  \<^verbatim>\<open>list.sort\<close> is stable, also with \<^verbatim>\<open>reverse=True\<close>: paths with the same number of
  separators keep their order.
\<close>

definition sort_select :: "string list \<Rightarrow> string list" where
  "sort_select select = sort_key (\<lambda>s. - int (count_char CHR ''/'' s)) (map (strip CHR ''/'') select)"

text \<open>The segments of a selected path: \<^verbatim>\<open>filter(None, item.split('/'))\<close>.\<close>

definition segments :: "string \<Rightarrow> string list" where
  "segments item = filter (\<lambda>p. p \<noteq> []) (split CHR ''/'' item)"

text \<open>
  The loop \<^verbatim>\<open>for item in select\<close>, each item starting back at \<^verbatim>\<open>self\<close> and at the top
  of \<^verbatim>\<open>data\<close>, with the segments of the item as \<^verbatim>\<open>request.postpath\<close>.
\<close>

fun select_loop ::
  "('n, 's) methods \<Rightarrow> 's \<Rightarrow> 'n \<Rightarrow> string list \<Rightarrow> (jkey \<times> json) list \<Rightarrow> error + (jkey \<times> json) list \<times> 's" where
  "select_loop M st self [] data = Inr (data, st)"
| "select_loop M st self (item # select) data =
     (case walk M st self (segments item) data of
        Inl e \<Rightarrow> Inl e
      | Inr (data', st') \<Rightarrow> select_loop M st' self select data')"

text \<open>
  The document \<^verbatim>\<open>data\<close> that \<^verbatim>\<open>content\<close> builds, before the output filter and the
  serialisation: composed from the selection when the request has a \<^verbatim>\<open>select\<close>
  argument, the rendering of \<^verbatim>\<open>self\<close> otherwise.
\<close>

definition content_data ::
  "('n, 's) methods \<Rightarrow> 's \<Rightarrow> 'n \<Rightarrow> string list option \<Rightarrow> string list \<Rightarrow> error + json \<times> 's" where
  "content_data M st self select postpath =
     (case select of
        Some sel \<Rightarrow>
          (case select_loop M st self (sort_select sel) [] of
             Inl e \<Rightarrow> Inl e
           | Inr (data, st') \<Rightarrow> Inr (JDict data, st'))
      | None \<Rightarrow> asDict M st self postpath)"

section \<open>Integers in path segments\<close>

text \<open>
  The characters C's \<^verbatim>\<open>isspace\<close> accepts (space, tab, newline, vertical tab, form feed,
  carriage return) and the decimal digits.
\<close>

definition isspace :: "char \<Rightarrow> bool" where
  "isspace c \<longleftrightarrow> c = CHR '' '' \<or> (9 \<le> (of_char c :: nat) \<and> (of_char c :: nat) \<le> 13)"

definition isdigit :: "char \<Rightarrow> bool" where
  "isdigit c \<longleftrightarrow> 48 \<le> (of_char c :: nat) \<and> (of_char c :: nat) \<le> 57"

definition digits_value :: "string \<Rightarrow> int" where
  "digits_value ds = foldl (\<lambda>acc c. 10 * acc + (int (of_char c) - 48)) 0 ds"

text \<open>
  \<^verbatim>\<open>_IS_INT = re.compile(r'^[-+]?\d+$')\<close> and \<^verbatim>\<open>_IS_INT.match(path)\<close>: an optional sign
  and at least one digit; \<^verbatim>\<open>$\<close> matches at the end of the string and also just before
  a newline that ends the string.
\<close>

definition IS_INT_match :: "string \<Rightarrow> bool" where
  "IS_INT_match path =
     (let s = (if path \<noteq> [] \<and> last path = CHR 0x0A then butlast path else path);
          ds = (case s of [] \<Rightarrow> [] | c # cs \<Rightarrow> if c = CHR ''-'' \<or> c = CHR ''+'' then cs else s)
      in ds \<noteq> [] \<and> list_all isdigit ds)"

text \<open>
  \<^verbatim>\<open>int(s)\<close> on a string, in Python 2: white space is skipped at both ends and after
  the sign, the sign is optional, at least one digit must follow and nothing else may;
  anything else raises \<^verbatim>\<open>ValueError\<close>. Python's integers are unbounded.
\<close>

definition py_int :: "string \<Rightarrow> error + int" where
  "py_int s =
     (let s1 = dropWhile isspace s;
          neg = (s1 \<noteq> [] \<and> hd s1 = CHR ''-'');
          s2 = (if s1 \<noteq> [] \<and> (hd s1 = CHR ''-'' \<or> hd s1 = CHR ''+'') then tl s1 else s1);
          s3 = dropWhile isspace s2;
          ds = takeWhile isdigit s3;
          rest = dropWhile isspace (dropWhile isdigit s3)
      in if ds = [] \<or> rest \<noteq> [] then Inl ValueError
         else Inr (if neg then - digits_value ds else digits_value ds))"

text \<open>\<^verbatim>\<open>str(n)\<close> of an integer.\<close>

function str_nat :: "nat \<Rightarrow> string" where
  "str_nat n =
     (if n < 10 then [''0123456789'' ! n]
      else str_nat (n div 10) @ [''0123456789'' ! (n mod 10)])"
  by pat_completeness auto
termination
  by (relation "measure id") auto

declare str_nat.simps [simp del]

definition str_int :: "int \<Rightarrow> string" where
  "str_int i = (if i < 0 then CHR ''-'' # str_nat (nat (- i)) else str_nat (nat i))"

text \<open>
  A path element is a segment of the URL or, when \<^verbatim>\<open>AllBuildsJsonResource.asDict\<close>
  calls \<^verbatim>\<open>getChildWithDefault(-i, request)\<close>, an integer.
\<close>

datatype path = PStr string | PInt int

section \<open>The status objects\<close>

text \<open>
  The classes of the status store (\<^verbatim>\<open>buildbot.status\<close>) are not in this file. A status
  object is a record of what the methods called here return: \<^verbatim>\<open>getName()\<close>,
  \<^verbatim>\<open>asDict()\<close>, \<^verbatim>\<open>getNumber()\<close>, \<^verbatim>\<open>getSteps()\<close>, \<^verbatim>\<open>getSourceStamps()\<close>,
  \<^verbatim>\<open>results\<close>, and for a change \<^verbatim>\<open>number\<close> and the address \<^verbatim>\<open>id(c)\<close>.
\<close>

record build_step_status =
  step_getName :: string
  step_asDict :: json

record change =
  change_number :: "int option"
  change_id :: int
  change_asDict :: json

record source_stamp =
  changes :: "change list"
  source_stamp_asDict :: json

record build_status =
  getNumber :: int
  getSteps :: "build_step_status list"
  getSourceStamps :: "source_stamp list"
  results :: int
  build_asDict :: json

text \<open>
  A builder status: \<^verbatim>\<open>getBuild(number)\<close>, the configured size of the build cache
  \<^verbatim>\<open>master.config.caches['Builds']\<close>, \<^verbatim>\<open>foundCodebasesInBuild(build, codebases)\<close>,
  \<^verbatim>\<open>generateFinishedBuilds(branches, codebases, results, num_builds)\<close> and
  \<^verbatim>\<open>getCachedBuilds(codebases)\<close>. Their code is not in this file; they are fields
  holding functions.
\<close>

record builder_status =
  getBuild :: "int \<Rightarrow> build_status option"
  caches_Builds :: int
  foundCodebasesInBuild :: "build_status \<Rightarrow> (string \<times> string) list \<Rightarrow> bool"
  generateFinishedBuilds ::
    "string list \<Rightarrow> (string \<times> string) list \<Rightarrow> int list option \<Rightarrow> int \<Rightarrow> build_status list"
  getCachedBuilds :: "(string \<times> string) list \<Rightarrow> build_status list"

text \<open>
  What the rendering methods read from the request: the argument \<^verbatim>\<open>max\<close>, the
  codebases \<^verbatim>\<open>getCodebasesArg\<close> collects, the branches (already through
  \<^verbatim>\<open>map_branches\<close>), and the result codes \<^verbatim>\<open>getResultsArg\<close> returns (\<^verbatim>\<open>None\<close>
  without a \<^verbatim>\<open>results\<close> argument).
\<close>

record request =
  arg_max :: "string option"
  arg_codebases :: "(string \<times> string) list"
  arg_branches :: "string list"
  arg_results :: "int list option"

section \<open>The resource tree\<close>

text \<open>
  The resources are objects that refer to each other, and \<^verbatim>\<open>putChild\<close> changes an
  object in place: the objects live in a heap, at addresses. An object has a class, with
  the attributes its constructor stored, and the dictionary \<^verbatim>\<open>children\<close>. Creating an
  object takes the next unused address, so a new object is never an existing one.

  \<open>JsonResource help pageTitle rendering\<close> stands for the classes of this file that
  keep the inherited \<^verbatim>\<open>getChild\<close>: their class attributes \<^verbatim>\<open>help\<close> and
  \<^verbatim>\<open>pageTitle\<close>, and what their own \<^verbatim>\<open>asDict\<close> returns (\<open>None\<close> when they inherit
  \<^verbatim>\<open>JsonResource.asDict\<close>). \<^verbatim>\<open>PastBuildsJsonResource\<close> is the one
  \<^verbatim>\<open>AllBuildsJsonResource.getChild\<close> creates, with a builder status.
  \<^verbatim>\<open>HelpResource\<close> keeps the text, the title and the names of the children of the
  resource it documents, \<^verbatim>\<open>NoResource\<close> is the error page of \<^verbatim>\<open>twisted.web\<close>. The
  attribute \<^verbatim>\<open>level\<close>, which only the links of the help pages use, is left out.
\<close>

type_synonym ref = nat

datatype cls =
    JsonResource "string option" "string option" "json option"
  | AllBuildsJsonResource builder_status
  | BuildsJsonResource builder_status
  | BuildJsonResource build_status
  | BuildStepsJsonResource build_status
  | BuildStepJsonResource build_step_status
  | PastBuildsJsonResource int builder_status
  | SourceStampJsonResource source_stamp
  | ChangesJsonResource
  | ChangeJsonResource change
  | HelpResource string string "string list"
  | NoResource

record obj =
  cls :: cls
  children :: "(string \<times> ref) list"

record state =
  heap :: "ref \<Rightarrow> obj"
  nxt :: ref

definition new :: "state \<Rightarrow> cls \<Rightarrow> ref \<times> state" where
  "new st c = (nxt st, st\<lparr>heap := (heap st)(nxt st := \<lparr>cls = c, children = []\<rparr>), nxt := Suc (nxt st)\<rparr>)"

text \<open>\<^verbatim>\<open>self.putChild(name, res)\<close>: \<^verbatim>\<open>self.children[name] = res\<close>.\<close>

definition putChild :: "state \<Rightarrow> ref \<Rightarrow> string \<Rightarrow> ref \<Rightarrow> state" where
  "putChild st self name res =
     st\<lparr>heap := (heap st)(self := (heap st self)\<lparr>children := AList.update name res (children (heap st self))\<rparr>)\<rparr>"

text \<open>The class attributes \<^verbatim>\<open>help\<close> (here \<open>help_text\<close>) and \<^verbatim>\<open>pageTitle\<close>.\<close>

fun help_text :: "cls \<Rightarrow> string option" where
  "help_text (JsonResource h t r) = h"
| "help_text (AllBuildsJsonResource b) = Some (''All the builds that were run on a builder.'' @ [CHR 0x0A])"
| "help_text (BuildsJsonResource b) = Some (''Builds that were run on a builder.'' @ [CHR 0x0A])"
| "help_text (BuildJsonResource b) = Some (''Describe a single build.'' @ [CHR 0x0A])"
| "help_text (BuildStepsJsonResource b) =
     Some (''A list of build steps that occurred during a build.'' @ [CHR 0x0A])"
| "help_text (BuildStepJsonResource s) = Some (''A single build step.'' @ [CHR 0x0A])"
| "help_text (PastBuildsJsonResource n b) = Some ''Previous x number of builds that were run on a builder.''"
| "help_text (SourceStampJsonResource s) = Some (''Describe the sources for a SourceStamp.'' @ [CHR 0x0A])"
| "help_text ChangesJsonResource = Some (''List of changes.'' @ [CHR 0x0A])"
| "help_text (ChangeJsonResource c) =
     Some (''Describe a single change that originates from a change source.'' @ [CHR 0x0A])"
| "help_text _ = None"

fun pageTitle :: "cls \<Rightarrow> string option" where
  "pageTitle (JsonResource h t r) = t"
| "pageTitle (AllBuildsJsonResource b) = Some ''AllBuilds''"
| "pageTitle (BuildsJsonResource b) = Some ''Builds''"
| "pageTitle (BuildJsonResource b) = Some ''Build''"
| "pageTitle (BuildStepsJsonResource b) = Some ''BuildSteps''"
| "pageTitle (BuildStepJsonResource s) = Some ''BuildStep''"
| "pageTitle (PastBuildsJsonResource n b) = Some ''Builds''"
| "pageTitle (SourceStampJsonResource s) = Some ''SourceStamp''"
| "pageTitle ChangesJsonResource = Some ''Changes''"
| "pageTitle (ChangeJsonResource c) = Some ''Change''"
| "pageTitle _ = None"

text \<open>\<^verbatim>\<open>isinstance(x, JsonResource)\<close>; these are also the resources with an \<^verbatim>\<open>asDict\<close>.\<close>

fun isJsonResource :: "cls \<Rightarrow> bool" where
  "isJsonResource (HelpResource h t names) = False"
| "isJsonResource NoResource = False"
| "isJsonResource _ = True"

section \<open>Constructors\<close>

text \<open>
  \<^verbatim>\<open>
  class ChangesJsonResource(JsonResource):
      def __init__(self, status, changes):
          JsonResource.__init__(self, status)
          for c in changes:
              if c.number is not None and str(c.number) not in self.children:
                  self.putChild(str(c.number), ChangeJsonResource(status, c))
              else:
                  self.putChild(str(id(c)), ChangeJsonResource(status, c))
  \<close>
\<close>

fun ChangesJsonResource_loop :: "state \<Rightarrow> ref \<Rightarrow> change list \<Rightarrow> state" where
  "ChangesJsonResource_loop st self [] = st"
| "ChangesJsonResource_loop st self (c # cs) =
     (let name = (case change_number c of
                    Some n \<Rightarrow> if map_of (children (heap st self)) (str_int n) = None then str_int n
                              else str_int (change_id c)
                  | None \<Rightarrow> str_int (change_id c));
          (res, st1) = new st (ChangeJsonResource c)
      in ChangesJsonResource_loop (putChild st1 self name res) self cs)"

definition ChangesJsonResource_init :: "state \<Rightarrow> change list \<Rightarrow> ref \<times> state" where
  "ChangesJsonResource_init st cs =
     (let (self, st1) = new st ChangesJsonResource in (self, ChangesJsonResource_loop st1 self cs))"

text \<open>
  \<^verbatim>\<open>
  class SourceStampJsonResource(JsonResource):
      def __init__(self, status, source_stamp):
          JsonResource.__init__(self, status)
          self.source_stamp = source_stamp
          self.putChild('changes',
                        ChangesJsonResource(status, source_stamp.changes))
  \<close>
\<close>

definition SourceStampJsonResource_init :: "state \<Rightarrow> source_stamp \<Rightarrow> ref \<times> state" where
  "SourceStampJsonResource_init st ss =
     (let (self, st1) = new st (SourceStampJsonResource ss);
          (res, st2) = ChangesJsonResource_init st1 (changes ss)
      in (self, putChild st2 self ''changes'' res))"

text \<open>
  \<^verbatim>\<open>
  class BuildJsonResource(JsonResource):
      def __init__(self, status, build_status):
          JsonResource.__init__(self, status)
          self.build_status = build_status
          # TODO: support multiple sourcestamps
          sourcestamp = build_status.getSourceStamps()[0]
          self.putChild('source_stamp',
                        SourceStampJsonResource(status, sourcestamp))
          self.putChild('steps', BuildStepsJsonResource(status, build_status))
  \<close>
  The index \<^verbatim>\<open>[0]\<close> raises \<^verbatim>\<open>IndexError\<close> on a build without source stamps.
\<close>

definition BuildJsonResource_init :: "state \<Rightarrow> build_status \<Rightarrow> error + ref \<times> state" where
  "BuildJsonResource_init st build_status =
     (let (self, st1) = new st (BuildJsonResource build_status)
      in case getSourceStamps build_status of
           [] \<Rightarrow> Inl IndexError
         | sourcestamp # _ \<Rightarrow>
             (let (res, st2) = SourceStampJsonResource_init st1 sourcestamp;
                  st3 = putChild st2 self ''source_stamp'' res;
                  (res', st4) = new st3 (BuildStepsJsonResource build_status)
              in Inr (self, putChild st4 self ''steps'' res')))"

text \<open>The state that \<^verbatim>\<open>BuildJsonResource(status, build_status)\<close> leaves.\<close>

definition built :: "state \<Rightarrow> build_status \<Rightarrow> state" where
  "built st build_status =
     (case BuildJsonResource_init st build_status of Inl e \<Rightarrow> st | Inr (self, st') \<Rightarrow> st')"

text \<open>
  \<^verbatim>\<open>
  class BuildsJsonResource(AllBuildsJsonResource):
      def __init__(self, status, builder_status):
          AllBuildsJsonResource.__init__(self, status, builder_status)
          self.putChild('_all', AllBuildsJsonResource(status, builder_status))
  \<close>
\<close>

definition BuildsJsonResource_init :: "state \<Rightarrow> builder_status \<Rightarrow> ref \<times> state" where
  "BuildsJsonResource_init st builder =
     (let (self, st1) = new st (BuildsJsonResource builder);
          (res, st2) = new st1 (AllBuildsJsonResource builder)
      in (self, putChild st2 self ''_all'' res))"

section \<open>Resolving a child\<close>

text \<open>
  \<^verbatim>\<open>
  def getChild(self, path, request):
      # Dynamic childs.
      if isinstance(path, int) or _IS_INT.match(path):
          build_status = self.builder_status.getBuild(int(path))
          if build_status:
              return BuildJsonResource(self.status, build_status)
      elif "<" in path:
          try:
              num = int(path.replace("<", ""))
          except ValueError:
              #Defaults to last 15
              num = 15
          return PastBuildsJsonResource(self.status, num, builder_status=self.builder_status)
      return JsonResource.getChild(self, path, request)
  \<close>
  \<^verbatim>\<open>JsonResource.getChild\<close> is \<^verbatim>\<open>twisted.web.resource.Resource.getChild\<close>, which
  returns a new \<^verbatim>\<open>NoResource\<close>.
\<close>

definition path_is_int :: "path \<Rightarrow> bool" where
  "path_is_int p = (case p of PInt i \<Rightarrow> True | PStr s \<Rightarrow> IS_INT_match s)"

definition int_of_path :: "path \<Rightarrow> error + int" where
  "int_of_path p = (case p of PInt i \<Rightarrow> Inr i | PStr s \<Rightarrow> py_int s)"

definition AllBuildsJsonResource_getChild ::
  "state \<Rightarrow> builder_status \<Rightarrow> path \<Rightarrow> error + ref \<times> state" where
  "AllBuildsJsonResource_getChild st builder p =
     (if path_is_int p then
        (case int_of_path p of
           Inl e \<Rightarrow> Inl e
         | Inr n \<Rightarrow>
             (case getBuild builder n of
                Some build_status \<Rightarrow> BuildJsonResource_init st build_status
              | None \<Rightarrow> Inr (new st NoResource)))
      else
        (case p of
           PStr s \<Rightarrow>
             if CHR ''<'' \<in> set s then
               (let num = (case py_int (filter (\<lambda>c. c \<noteq> CHR ''<'') s) of
                             Inl e \<Rightarrow> 15 | Inr n \<Rightarrow> n)
                in Inr (new st (PastBuildsJsonResource num builder)))
             else Inr (new st NoResource)
         | PInt i \<Rightarrow> Inr (new st NoResource)))"

text \<open>
  \<^verbatim>\<open>
  def getChild(self, path, request):
      # Dynamic childs.
      build_step_status = None
      if isinstance(path, int) or _IS_INT.match(path):
          build_step_status = self.build_status.getSteps()[int(path)]
      else:
          steps_dict = dict([(step.getName(), step)
                             for step in self.build_status.getSteps()])
          build_step_status = steps_dict.get(path)
      if build_step_status:
          # Create it on-demand.
          child = BuildStepJsonResource(self.status, build_step_status)
          # Cache it.
          index = self.build_status.getSteps().index(build_step_status)
          self.putChild(str(index), child)
          self.putChild(build_step_status.getName(), child)
          return child
      return JsonResource.getChild(self, path, request)
  \<close>
  A step status is an object, found again in the list by \<^verbatim>\<open>index\<close> at its own
  position; the model keeps the position. List indexing raises \<^verbatim>\<open>IndexError\<close> out of
  range and counts a negative index from the end. In \<^verbatim>\<open>dict(...)\<close> the last step of a
  name wins.
\<close>

definition list_index :: "'a list \<Rightarrow> int \<Rightarrow> error + nat" where
  "list_index xs i =
     (let n = int (length xs); j = (if i < 0 then n + i else i)
      in if 0 \<le> j \<and> j < n then Inr (nat j) else Inl IndexError)"

definition steps_dict_get :: "build_step_status list \<Rightarrow> string \<Rightarrow> nat option" where
  "steps_dict_get steps name =
     (case filter (\<lambda>j. step_getName (steps ! j) = name) (rev [0..<length steps]) of
        [] \<Rightarrow> None | j # _ \<Rightarrow> Some j)"

definition BuildStepsJsonResource_getChild ::
  "state \<Rightarrow> ref \<Rightarrow> build_status \<Rightarrow> path \<Rightarrow> error + ref \<times> state" where
  "BuildStepsJsonResource_getChild st self build_status p =
     (case (if path_is_int p then
              (case int_of_path p of
                 Inl e \<Rightarrow> Inl e
               | Inr n \<Rightarrow> (case list_index (getSteps build_status) n of
                             Inl e \<Rightarrow> Inl e | Inr j \<Rightarrow> Inr (Some j)))
            else (case p of PStr s \<Rightarrow> Inr (steps_dict_get (getSteps build_status) s)
                          | PInt i \<Rightarrow> Inr None)) of
        Inl e \<Rightarrow> Inl e
      | Inr None \<Rightarrow> Inr (new st NoResource)
      | Inr (Some index) \<Rightarrow>
          (let build_step_status = getSteps build_status ! index;
               (child, st1) = new st (BuildStepJsonResource build_step_status);
               st2 = putChild st1 self (str_nat index) child;
               st3 = putChild st2 self (step_getName build_step_status) child
           in Inr (child, st3)))"

text \<open>
  \<^verbatim>\<open>
  def getChildWithDefault(self, path, request):
      """Adds transparent support for url ending with /"""
      if path == "" and len(request.postpath) == 0:
          return self
      if path == 'help' and self.help:
          pageTitle = ''
          if self.pageTitle:
              pageTitle = self.pageTitle + ' help'
          return HelpResource(self.help,
                              pageTitle=pageTitle,
                              parent_node=self)
          # Equivalent to resource.Resource.getChildWithDefault()
      if path in self.children:
          return self.children[path]
      return self.getChild(path, request)
  \<close>
  followed by the \<^verbatim>\<open>getChild\<close> of the class of \<^verbatim>\<open>self\<close>; that of
  \<^verbatim>\<open>BuildsJsonResource\<close> is
  \<^verbatim>\<open>
  def getChild(self, path, request):
      # Transparently redirects to _all if path is not ''.
      return self.children['_all'].getChildWithDefault(path, request)
  \<close>
  \<^verbatim>\<open>NoResource\<close> and \<^verbatim>\<open>HelpResource\<close> are not \<^verbatim>\<open>JsonResource\<close>s: they have
  the \<^verbatim>\<open>getChildWithDefault\<close> of \<^verbatim>\<open>twisted.web\<close>, no children, and as
  \<^verbatim>\<open>getChild\<close> the error page returns itself and the help page the inherited new
  \<^verbatim>\<open>NoResource\<close>. The redirection to \<^verbatim>\<open>_all\<close> is a call of the same method on
  another object, which need not return when the objects form a cycle: the function is
  partial, \<open>None\<close> standing for a recursion without end.
\<close>

definition getChildWithDefault_static ::
  "state \<Rightarrow> ref \<Rightarrow> path \<Rightarrow> string list \<Rightarrow> (ref \<times> state) option" where
  "getChildWithDefault_static st self p postpath =
     (let c = cls (heap st self); chs = children (heap st self)
      in if p = PStr [] \<and> postpath = [] then Some (self, st)
         else if p = PStr ''help'' \<and> help_text c \<noteq> None \<and> help_text c \<noteq> Some [] then
           Some (new st (HelpResource (the (help_text c))
                   (case pageTitle c of None \<Rightarrow> [] | Some t \<Rightarrow> if t = [] then [] else t @ '' help'')
                   (map fst chs)))
         else (case p of
                 PStr s \<Rightarrow> (case map_of chs s of Some res \<Rightarrow> Some (res, st) | None \<Rightarrow> None)
               | PInt i \<Rightarrow> None))"

fun getChild :: "state \<Rightarrow> ref \<Rightarrow> cls \<Rightarrow> path \<Rightarrow> error + ref \<times> state" where
  "getChild st self (AllBuildsJsonResource builder) p = AllBuildsJsonResource_getChild st builder p"
| "getChild st self (BuildStepsJsonResource build_status) p =
     BuildStepsJsonResource_getChild st self build_status p"
| "getChild st self _ p = Inr (new st NoResource)"

fun is_BuildsJsonResource :: "cls \<Rightarrow> bool" where
  "is_BuildsJsonResource (BuildsJsonResource builder) = True"
| "is_BuildsJsonResource _ = False"

fun is_NoResource :: "cls \<Rightarrow> bool" where
  "is_NoResource NoResource = True"
| "is_NoResource _ = False"

partial_function (option) resolve ::
  "state \<Rightarrow> ref \<Rightarrow> path \<Rightarrow> string list \<Rightarrow> (error + ref \<times> state) option" where
  "resolve st self p postpath =
     (if is_NoResource (cls (heap st self)) then Some (Inr (self, st))
      else if \<not> isJsonResource (cls (heap st self)) then Some (Inr (new st NoResource))
      else (case getChildWithDefault_static st self p postpath of
              Some r \<Rightarrow> Some (Inr r)
            | None \<Rightarrow>
                if is_BuildsJsonResource (cls (heap st self)) then
                  (case map_of (children (heap st self)) ''_all'' of
                     None \<Rightarrow> Some (Inl KeyError)
                   | Some all \<Rightarrow> resolve st all p postpath)
                else Some (getChild st self (cls (heap st self)) p)))"

declare resolve.simps [code]

text \<open>
  Python ends a recursion that is too deep with \<^verbatim>\<open>RuntimeError\<close> (maximum recursion
  depth exceeded).
\<close>

definition JsonResource_getChildWithDefault ::
  "state \<Rightarrow> ref \<Rightarrow> path \<Rightarrow> string list \<Rightarrow> error + ref \<times> state" where
  "JsonResource_getChildWithDefault st self p postpath =
     (case resolve st self p postpath of None \<Rightarrow> Inl RuntimeError | Some r \<Rightarrow> r)"

section \<open>Rendering\<close>

text \<open>
  \<^verbatim>\<open>
  def asDict(self, request):
      results = {}
      #Get codebases
      codebases = {}
      getCodebasesArg(request=request, codebases=codebases)
      results_filter = getResultsArg(request)

      # If max > buildCacheSize, it'll trash the cache...
      cache_size = self.builder_status.master.config.caches['Builds']
      max = int(RequestArg(request, 'max', cache_size))
      for i in range(0, max):
          child = self.getChildWithDefault(-i, request)
          if not isinstance(child, BuildJsonResource):
              continue

          if len(codebases) != 0 and \
                  not child.build_status.builder.foundCodebasesInBuild(child.build_status, codebases):
              continue

          if results_filter is not None and \
              child.build_status.results not in results_filter:
              continue

          results[child.build_status.getNumber()] = child.asDict(request)

      return results
  \<close>
  The builder of a build that \<^verbatim>\<open>self.builder_status.getBuild\<close> returned is taken to be
  \<^verbatim>\<open>self.builder_status\<close>. \<^verbatim>\<open>child.asDict(request)\<close> is
  \<^verbatim>\<open>BuildJsonResource.asDict\<close>, which returns \<^verbatim>\<open>self.build_status.asDict(request)\<close>.
\<close>

fun AllBuildsJsonResource_loop ::
  "request \<Rightarrow> builder_status \<Rightarrow> state \<Rightarrow> ref \<Rightarrow> string list \<Rightarrow> int list \<Rightarrow> (jkey \<times> json) list \<Rightarrow>
   error + (jkey \<times> json) list \<times> state" where
  "AllBuildsJsonResource_loop req builder st self postpath [] res = Inr (res, st)"
| "AllBuildsJsonResource_loop req builder st self postpath (i # is) res =
     (case JsonResource_getChildWithDefault st self (PInt (- i)) postpath of
        Inl e \<Rightarrow> Inl e
      | Inr (child, st1) \<Rightarrow>
          (case cls (heap st1 child) of
             BuildJsonResource build_status \<Rightarrow>
               if length (arg_codebases req) \<noteq> 0
                  \<and> \<not> foundCodebasesInBuild builder build_status (arg_codebases req)
               then AllBuildsJsonResource_loop req builder st1 self postpath is res
               else if (case arg_results req of None \<Rightarrow> False
                        | Some results_filter \<Rightarrow> results build_status \<notin> set results_filter)
               then AllBuildsJsonResource_loop req builder st1 self postpath is res
               else AllBuildsJsonResource_loop req builder st1 self postpath is
                      (AList.update (KInt (getNumber build_status)) (build_asDict build_status) res)
           | _ \<Rightarrow> AllBuildsJsonResource_loop req builder st1 self postpath is res))"

definition AllBuildsJsonResource_asDict ::
  "request \<Rightarrow> builder_status \<Rightarrow> state \<Rightarrow> ref \<Rightarrow> string list \<Rightarrow> error + json \<times> state" where
  "AllBuildsJsonResource_asDict req builder st self postpath =
     (case (case arg_max req of None \<Rightarrow> Inr (caches_Builds builder) | Some s \<Rightarrow> py_int s) of
        Inl e \<Rightarrow> Inl e
      | Inr max_arg \<Rightarrow>
          (case AllBuildsJsonResource_loop req builder st self postpath (map int [0..<nat max_arg]) [] of
             Inl e \<Rightarrow> Inl e
           | Inr (res, st') \<Rightarrow> Inr (JDict res, st')))"

text \<open>
  \<^verbatim>\<open>PastBuildsJsonResource.asDict\<close>, with a builder status:
  \<^verbatim>\<open>
  codebases = {}
  getCodebasesArg(request=request, codebases=codebases)
  encoding = getRequestCharset(request)
  branches = [b.decode(encoding) for b in request.args.get("branch", []) if b]
  results = getResultsArg(request)

  builds = list(self.builder_status.generateFinishedBuilds(branches=map_branches(branches),
                                                    codebases=codebases,
                                                    results=results,
                                                    num_builds=self.number))

  return [b.asDict(request) for b in builds]
  \<close>
\<close>

definition PastBuildsJsonResource_asDict :: "request \<Rightarrow> int \<Rightarrow> builder_status \<Rightarrow> json" where
  "PastBuildsJsonResource_asDict req number builder =
     JList (map build_asDict
       (generateFinishedBuilds builder (arg_branches req) (arg_codebases req) (arg_results req) number))"

text \<open>
  \<^verbatim>\<open>BuildsJsonResource.asDict\<close>:
  \<^verbatim>\<open>
  builds = self.builder_status.getCachedBuilds(codebases=codebases)
  return [b.asDict() for b in builds]
  \<close>
\<close>

definition BuildsJsonResource_asDict :: "request \<Rightarrow> builder_status \<Rightarrow> json" where
  "BuildsJsonResource_asDict req builder =
     JList (map build_asDict (getCachedBuilds builder (arg_codebases req)))"

text \<open>
  \<^verbatim>\<open>BuildStepsJsonResource.asDict\<close>:
  \<^verbatim>\<open>
  results = {}
  index = 0
  for step in self.build_status.getSteps():
      results[index] = step.asDict(request)
      index += 1
  return results
  \<close>
\<close>

definition BuildStepsJsonResource_asDict :: "build_status \<Rightarrow> json" where
  "BuildStepsJsonResource_asDict build_status =
     JDict (map (\<lambda>index. (KInt (int index), step_asDict (getSteps build_status ! index)))
              [0..<length (getSteps build_status)])"

text \<open>
  \<^verbatim>\<open>JsonResource.asDict\<close>:
  \<^verbatim>\<open>
  if self.children:
      data = {}
      for name in self.children:
          child = self.getChildWithDefault(name, request)
          if isinstance(child, JsonResource):
              data[name] = yield defer.maybeDeferred(lambda:
              child.asDict(request))
              # else silently pass over non-json resources.
      defer.returnValue(data)
  else:
      raise NotImplementedError()
  \<close>
  The \<^verbatim>\<open>asDict\<close> that Python finds on the child is the argument \<open>render\<close>.
\<close>

fun JsonResource_loop ::
  "(state \<Rightarrow> ref \<Rightarrow> string list \<Rightarrow> error + json \<times> state) \<Rightarrow> state \<Rightarrow> ref \<Rightarrow> string list \<Rightarrow>
   string list \<Rightarrow> (jkey \<times> json) list \<Rightarrow> error + (jkey \<times> json) list \<times> state" where
  "JsonResource_loop render st self postpath [] data = Inr (data, st)"
| "JsonResource_loop render st self postpath (name # names) data =
     (case JsonResource_getChildWithDefault st self (PStr name) postpath of
        Inl e \<Rightarrow> Inl e
      | Inr (child, st1) \<Rightarrow>
          if isJsonResource (cls (heap st1 child)) then
            (case render st1 child postpath of
               Inl e \<Rightarrow> Inl e
             | Inr (v, st2) \<Rightarrow>
                 JsonResource_loop render st2 self postpath names (AList.update (KStr name) v data))
          else JsonResource_loop render st1 self postpath names data)"

definition JsonResource_asDict ::
  "(state \<Rightarrow> ref \<Rightarrow> string list \<Rightarrow> error + json \<times> state) \<Rightarrow> state \<Rightarrow> ref \<Rightarrow> string list \<Rightarrow>
   error + json \<times> state" where
  "JsonResource_asDict render st self postpath =
     (if children (heap st self) \<noteq> [] then
        (case JsonResource_loop render st self postpath (map fst (children (heap st self))) [] of
           Inl e \<Rightarrow> Inl e
         | Inr (data, st') \<Rightarrow> Inr (JDict data, st'))
      else Inl NotImplementedError)"

text \<open>
  \<^verbatim>\<open>x.asDict(request)\<close>, by the class of \<^verbatim>\<open>x\<close>. The first argument bounds the depth
  of the recursion of \<^verbatim>\<open>JsonResource.asDict\<close> through the children, which Python ends
  with \<^verbatim>\<open>RuntimeError\<close>. \<^verbatim>\<open>ChangesJsonResource.asDict\<close> returns \<^verbatim>\<open>{}\<close> without
  children and calls \<^verbatim>\<open>JsonResource.asDict\<close> otherwise. The error page and the help
  page have no such method.
\<close>

fun asDict_cls ::
  "(state \<Rightarrow> ref \<Rightarrow> string list \<Rightarrow> error + json \<times> state) \<Rightarrow> request \<Rightarrow> cls \<Rightarrow> state \<Rightarrow> ref \<Rightarrow>
   string list \<Rightarrow> error + json \<times> state" where
  "asDict_cls render req (JsonResource h t (Some v)) st self postpath = Inr (v, st)"
| "asDict_cls render req (JsonResource h t None) st self postpath =
     JsonResource_asDict render st self postpath"
| "asDict_cls render req (AllBuildsJsonResource builder) st self postpath =
     AllBuildsJsonResource_asDict req builder st self postpath"
| "asDict_cls render req (BuildsJsonResource builder) st self postpath =
     Inr (BuildsJsonResource_asDict req builder, st)"
| "asDict_cls render req (BuildJsonResource build_status) st self postpath =
     Inr (build_asDict build_status, st)"
| "asDict_cls render req (BuildStepsJsonResource build_status) st self postpath =
     Inr (BuildStepsJsonResource_asDict build_status, st)"
| "asDict_cls render req (BuildStepJsonResource build_step_status) st self postpath =
     Inr (step_asDict build_step_status, st)"
| "asDict_cls render req (PastBuildsJsonResource number builder) st self postpath =
     Inr (PastBuildsJsonResource_asDict req number builder, st)"
| "asDict_cls render req (SourceStampJsonResource ss) st self postpath =
     Inr (source_stamp_asDict ss, st)"
| "asDict_cls render req ChangesJsonResource st self postpath =
     (if children (heap st self) = [] then Inr (JDict [], st)
      else JsonResource_asDict render st self postpath)"
| "asDict_cls render req (ChangeJsonResource c) st self postpath = Inr (change_asDict c, st)"
| "asDict_cls render req (HelpResource h t names) st self postpath = Inl AttributeError"
| "asDict_cls render req NoResource st self postpath = Inl AttributeError"

primrec asDict_depth ::
  "nat \<Rightarrow> request \<Rightarrow> state \<Rightarrow> ref \<Rightarrow> string list \<Rightarrow> error + json \<times> state" where
  "asDict_depth 0 = (\<lambda>req st self postpath. Inl RuntimeError)"
| "asDict_depth (Suc d) =
     (\<lambda>req st self postpath. asDict_cls (asDict_depth d req) req (cls (heap st self)) st self postpath)"

text \<open>
  The methods \<^verbatim>\<open>content\<close> calls, for the classes of this file. No class of this file
  sets \<^verbatim>\<open>isLeaf\<close>, which \<^verbatim>\<open>twisted.web.resource.Resource\<close> defines as 0. The
  segments of a selected path are strings.
\<close>

definition json_methods :: "nat \<Rightarrow> request \<Rightarrow> (ref, state) methods" where
  "json_methods depth req =
     \<lparr>isLeaf = (\<lambda>self. False),
      getChildWithDefault = (\<lambda>st self pathElement postpath.
         JsonResource_getChildWithDefault st self (PStr pathElement) postpath),
      hasattr_asDict = (\<lambda>st self. isJsonResource (cls (heap st self))),
      asDict = asDict_depth depth req\<rparr>"

section \<open>The status store, as far as the specification describes it\<close>

text \<open>
  Modelled from the spec: \<^verbatim>\<open>BuilderStatus.getBuild\<close>, whose code is in
  \<^verbatim>\<open>buildbot.status.builder\<close>. A number \<open>n \<ge> 0\<close> is the build literally numbered
  \<open>n\<close>; \<open>n < 0\<close> is the \<open>|n|\<close>-th most recent build, \<open>-1\<close> the latest. Both draw
  from the bounded in-memory cache only, here the list of the cached builds from the most
  recent to the oldest; a build outside the cache is not found.
\<close>

definition getBuild_cached :: "build_status list \<Rightarrow> int \<Rightarrow> build_status option" where
  "getBuild_cached cache n =
     (if 0 \<le> n then find (\<lambda>b. getNumber b = n) cache
      else if nat (- n) \<le> length cache then Some (cache ! (nat (- n) - 1))
      else None)"

text \<open>
  Modelled from the spec: \<^verbatim>\<open>BuilderStatus.generateFinishedBuilds\<close>, whose code is in
  \<^verbatim>\<open>buildbot.status.builder\<close>. A scan of the full history, here the list of all
  finished builds from the most recent to the oldest, that yields the \<open>N\<close> most recent
  builds satisfying all supplied filters, fewer if the history has fewer. A filter that is
  not supplied (no branch, no codebase, no \<^verbatim>\<open>results\<close> argument) admits every build.
  The tests of a build against branches and codebases are parameters.
\<close>

definition generateFinishedBuilds_scan ::
  "(build_status \<Rightarrow> string list \<Rightarrow> bool) \<Rightarrow> (build_status \<Rightarrow> (string \<times> string) list \<Rightarrow> bool) \<Rightarrow>
   build_status list \<Rightarrow> string list \<Rightarrow> (string \<times> string) list \<Rightarrow> int list option \<Rightarrow> int \<Rightarrow>
   build_status list" where
  "generateFinishedBuilds_scan on_branch found history branches codebases res num_builds =
     take (nat num_builds)
       (filter (\<lambda>b. (branches = [] \<or> on_branch b branches)
                  \<and> (codebases = [] \<or> found b codebases)
                  \<and> (case res of None \<Rightarrow> True | Some rs \<Rightarrow> results b \<in> set rs))
          history)"

section \<open>A builder for the examples\<close>

text \<open>
  Build number \<open>n\<close> of the builder \<^verbatim>\<open>demo\<close>: two steps, one source stamp without
  changes, result code \<open>n mod 2\<close>.
\<close>

definition demo_build :: "int \<Rightarrow> build_status" where
  "demo_build n =
     \<lparr>getNumber = n,
      getSteps = [\<lparr>step_getName = ''compile'', step_asDict = JDict [(KStr ''name'', JStr ''compile'')]\<rparr>,
                  \<lparr>step_getName = ''test'', step_asDict = JDict [(KStr ''name'', JStr ''test'')]\<rparr>],
      getSourceStamps = [\<lparr>changes = [], source_stamp_asDict = JDict [(KStr ''branch'', JStr ''trunk'')]\<rparr>],
      results = n mod 2,
      build_asDict = JDict [(KStr ''builderName'', JStr ''demo''), (KStr ''number'', JInt n),
                            (KStr ''results'', JInt (n mod 2))]\<rparr>"

text \<open>
  The builder \<^verbatim>\<open>demo\<close> with the builds \<open>lo, \<dots>, hi\<close> in its history, the most recent
  \<open>n\<close> of them in the cache, on one branch and one codebase.
\<close>

definition demo_history :: "nat \<Rightarrow> nat \<Rightarrow> build_status list" where
  "demo_history lo hi = map (\<lambda>n. demo_build (int n)) (rev [lo..<Suc hi])"

definition demo_builder :: "nat \<Rightarrow> nat \<Rightarrow> nat \<Rightarrow> builder_status" where
  "demo_builder lo hi n =
     \<lparr>getBuild = getBuild_cached (take n (demo_history lo hi)),
      caches_Builds = int n,
      foundCodebasesInBuild = (\<lambda>b codebases. True),
      generateFinishedBuilds =
        generateFinishedBuilds_scan (\<lambda>b branches. True) (\<lambda>b codebases. True) (demo_history lo hi),
      getCachedBuilds = (\<lambda>codebases. take n (demo_history lo hi))\<rparr>"

text \<open>The heap before any resource is created, and a request without arguments.\<close>

definition empty_state :: state where
  "empty_state = \<lparr>heap = (\<lambda>r. \<lparr>cls = NoResource, children = []\<rparr>), nxt = 0\<rparr>"

definition no_args :: request where
  "no_args = \<lparr>arg_max = None, arg_codebases = [], arg_branches = [], arg_results = None\<rparr>"

text \<open>
  The resource \<^verbatim>\<open>BuildsJsonResource\<close> of the builder \<^verbatim>\<open>demo\<close> with the builds
  \<open>1, \<dots>, 10\<close>, all in the cache: the object at address 0, its child \<^verbatim>\<open>_all\<close> at
  address 1.
\<close>

definition demo :: builder_status where
  "demo = demo_builder 1 10 10"

definition demo_cache :: "build_status list" where
  "demo_cache = demo_history 1 10"

definition demo_state :: state where
  "demo_state = snd (BuildsJsonResource_init empty_state demo)"

text \<open>
  The state after the segment \<^verbatim>\<open>-1\<close> has been resolved once under the builds resource
  of \<^verbatim>\<open>demo\<close>, which created the resource of build 10.
\<close>

definition demo_state' :: state where
  "demo_state' = built demo_state (demo_build 10)"

text \<open>
  A \<^verbatim>\<open>BuildStepsJsonResource\<close> of build 7 at address 0, and the state after its
  \<^verbatim>\<open>getChild\<close> has resolved the step name \<^verbatim>\<open>test\<close>.
\<close>

definition steps_state :: state where
  "steps_state = snd (new empty_state (BuildStepsJsonResource (demo_build 7)))"

definition steps_state' :: state where
  "steps_state' = snd (projr (BuildStepsJsonResource_getChild steps_state 0 (demo_build 7) (PStr ''test'')))"

text \<open>
  What one turn of the loop of \<^verbatim>\<open>AllBuildsJsonResource.asDict\<close> does to \<^verbatim>\<open>results\<close>,
  in terms of the build that \<^verbatim>\<open>getBuild(-i)\<close> returns; the properties of the rendering
  are stated with it.
\<close>

definition keep_build :: "request \<Rightarrow> builder_status \<Rightarrow> int \<Rightarrow> (jkey \<times> json) list \<Rightarrow> (jkey \<times> json) list" where
  "keep_build req builder i res =
     (case getBuild builder (- i) of
        None \<Rightarrow> res
      | Some b \<Rightarrow>
          if (arg_codebases req = [] \<or> foundCodebasesInBuild builder b (arg_codebases req))
             \<and> (case arg_results req of None \<Rightarrow> True | Some rf \<Rightarrow> results b \<in> set rf)
          then AList.update (KInt (getNumber b)) (build_asDict b) res
          else res)"

text \<open>
  A builder with the builds 1 to 5 in its history and the latest three of them in a cache
  of size 3, and the state with its builds resource at address 0 and the child \<^verbatim>\<open>_all\<close>
  at address 1.
\<close>

definition capped :: builder_status where
  "capped = demo_builder 1 5 3"

definition capped_state :: state where
  "capped_state = snd (BuildsJsonResource_init empty_state capped)"

text \<open>
  The methods for a request without arguments; depth 1 is enough for the resources of the
  examples, none of which inherits \<^verbatim>\<open>JsonResource.asDict\<close>.
\<close>

definition demo_methods :: "(ref, state) methods" where
  "demo_methods = json_methods 1 no_args"

text \<open>The state after \<^verbatim>\<open>-1\<close> has been resolved a second time.\<close>

definition demo_state'' :: state where
  "demo_state'' = built demo_state' (demo_build 10)"


section \<open>Well-formed heaps and heaps at other addresses\<close>













section \<open>Properties of the output filter\<close>

lemma FilterOut_items_map: "FilterOut_items xs = map FilterOut xs"
  by (induction xs) simp_all

lemma FilterOut_pairs_map: "FilterOut_pairs kvs = map (\<lambda>(k, v). (k, FilterOut v)) kvs"
  by (induction kvs) auto

text \<open>
  C7. The filter keeps an entry of a mapping exactly when its filtered value is not in the
  tuple of empties, and every element of a list that all filters to empties is dropped
  with the list. A numeric zero compares equal to \<^verbatim>\<open>False\<close>, so the entry
  \<^verbatim>\<open>"a": 0\<close> is removed from \<^verbatim>\<open>{"a": 0, "b": 1}\<close>, although the docstring lists only
  \<^verbatim>\<open>None, False, "", [], () and {}\<close>.
\<close>

theorem FilterOut_drops_numeric_zero:
  "FilterOut (JDict [(KStr ''a'', JInt 0), (KStr ''b'', JInt 1)]) = JDict [(KStr ''b'', JInt 1)]"
  by (simp add: in_empties_def)

section \<open>Properties of the pending build queue\<close>

lemma pending_loop_filter:
  "pending_loop found cb builds =
     map (\<lambda>br. (getSubmitTime br, br)) (filter (\<lambda>br. cb = [] \<or> found br cb) builds)"
  by (induction builds) (auto simp: Let_def)

lemma insort_key_tagged:
  "insort_key fst (f x, x) (map (\<lambda>y. (f y, y)) ys) = map (\<lambda>y. (f y, y)) (insort_key f x ys)"
  by (induction ys) auto

lemma sort_key_tagged:
  "sort_key fst (map (\<lambda>y. (f y, y)) xs) = map (\<lambda>y. (f y, y)) (sort_key f xs)"
  by (induction xs) (auto simp: insort_key_tagged)

lemma sorted_pending_eq:
  "sorted_pending found cb builds =
     sort_key getSubmitTime (filter (\<lambda>br. cb = [] \<or> found br cb) builds)"
  unfolding sorted_pending_def pending_loop_filter
  by (simp add: sort_key_tagged o_def)

text \<open>
  C6, as the code has it. For a single builder the rendering lists exactly the pending
  requests that pass the codebase test (all of them when no codebase is supplied), in
  non-decreasing order of submit time, requests with equal submit times in the order the
  builder listed them; the order is that of the sort alone. For the global queue the
  rendering lists every unclaimed request in the order the database returned them, and
  the codebase arguments play no part.
\<close>

theorem pending_projection:
  "(\<exists>p. SinglePendingBuildsJsonResource_asDict found cb builds = map asDict_async p
       \<and> sorted (map getSubmitTime p)
       \<and> mset p = mset (filter (\<lambda>br. cb = [] \<or> found br cb) builds)
       \<and> (\<forall>t. filter (\<lambda>br. getSubmitTime br = t) p
              = filter (\<lambda>br. getSubmitTime br = t) (filter (\<lambda>br. cb = [] \<or> found br cb) builds)))
   \<and> QueueJsonResource_asDict mk unclaimed cb
       = map (\<lambda>d. asDict_async (mk (d_buildername d) (d_brid d))) unclaimed"
proof -
  let ?p = "sorted_pending found cb builds"
  have "SinglePendingBuildsJsonResource_asDict found cb builds = map asDict_async ?p"
    by (simp add: SinglePendingBuildsJsonResource_asDict_def)
  moreover have "sorted (map getSubmitTime ?p)"
    by (simp add: sorted_pending_eq)
  moreover have "mset ?p = mset (filter (\<lambda>br. cb = [] \<or> found br cb) builds)"
    by (simp add: sorted_pending_eq)
  moreover have "\<forall>t. filter (\<lambda>br. getSubmitTime br = t) ?p
              = filter (\<lambda>br. getSubmitTime br = t) (filter (\<lambda>br. cb = [] \<or> found br cb) builds)"
    unfolding sorted_pending_eq by (simp only: sort_key_stable) simp
  ultimately show ?thesis
    by (auto simp: QueueJsonResource_asDict_def)
qed

text \<open>
  The theorem at four pending requests submitted at 30, 10, 5 and 20, the third on another
  branch than the one asked for.
\<close>

theorem pending_projection_witness:
  "(\<exists>p. SinglePendingBuildsJsonResource_asDict foundCodebasesInPendingBuild [(''katana'', ''trunk'')]
          [br_example 1 30 ''trunk'', br_example 2 10 ''trunk'', br_example 3 5 ''stable'',
           br_example 4 20 ''trunk''] = map asDict_async p
       \<and> sorted (map getSubmitTime p)
       \<and> mset p = mset (filter (\<lambda>br. [(''katana'', ''trunk'')] = []
                   \<or> foundCodebasesInPendingBuild br [(''katana'', ''trunk'')])
          [br_example 1 30 ''trunk'', br_example 2 10 ''trunk'', br_example 3 5 ''stable'',
           br_example 4 20 ''trunk''])
       \<and> (\<forall>t. filter (\<lambda>br. getSubmitTime br = t) p
              = filter (\<lambda>br. getSubmitTime br = t) (filter (\<lambda>br. [(''katana'', ''trunk'')] = []
                   \<or> foundCodebasesInPendingBuild br [(''katana'', ''trunk'')])
          [br_example 1 30 ''trunk'', br_example 2 10 ''trunk'', br_example 3 5 ''stable'',
           br_example 4 20 ''trunk''])))
   \<and> QueueJsonResource_asDict (\<lambda>name i. br_example i 30 ''stable'')
        [\<lparr>d_buildername = ''demo'', d_brid = 1\<rparr>] [(''katana'', ''trunk'')]
       = map (\<lambda>d. asDict_async (br_example (d_brid d) 30 ''stable''))
           [\<lparr>d_buildername = ''demo'', d_brid = 1\<rparr>]"
  by (rule pending_projection)

text \<open>
  The claim as stated fails for the global queue: a request on the branch \<^verbatim>\<open>stable\<close> is
  listed although the request asks for the codebase \<^verbatim>\<open>katana\<close> on \<^verbatim>\<open>trunk\<close>.
\<close>

theorem global_queue_ignores_codebases:
  "QueueJsonResource_asDict (\<lambda>name i. br_example i 30 ''stable'')
       [\<lparr>d_buildername = ''demo'', d_brid = 1\<rparr>] [(''katana'', ''trunk'')]
   \<noteq> map asDict_async (sort_key getSubmitTime
        (filter (\<lambda>br. foundCodebasesInPendingBuild br [(''katana'', ''trunk'')])
           (map (\<lambda>d. br_example (d_brid d) 30 ''stable'') [\<lparr>d_buildername = ''demo'', d_brid = 1\<rparr>])))"
  by (simp add: QueueJsonResource_asDict_def foundCodebasesInPendingBuild_def br_example_def)

section \<open>Integers in path segments: properties\<close>

lemma isdigit_not_isspace: "isdigit c \<Longrightarrow> \<not> isspace c"
  by (auto simp: isdigit_def isspace_def)

lemma not_isspace_sign: "\<not> isspace CHR ''-''" "\<not> isspace CHR ''+''"
  by (simp_all add: isspace_def)

lemma not_isdigit_misc: "\<not> isdigit CHR ''-''" "\<not> isdigit CHR ''+''" "\<not> isdigit (CHR 0x0A)" "isspace (CHR 0x0A)"
  by (simp_all add: isdigit_def isspace_def)

lemma py_int_digits:
  assumes "ds \<noteq> []" "list_all isdigit ds" "nl = [] \<or> nl = [CHR 0x0A]"
  shows "py_int (ds @ nl) = Inr (digits_value ds)"
    and "py_int (CHR ''+'' # ds @ nl) = Inr (digits_value ds)"
    and "py_int (CHR ''-'' # ds @ nl) = Inr (- digits_value ds)"
proof -
  obtain d ds' where ds: "ds = d # ds'" using assms(1) by (cases ds) auto
  have d: "isdigit d" "\<not> isspace d" using assms(2) ds isdigit_not_isspace by auto
  have all: "\<And>x. x \<in> set ds \<Longrightarrow> isdigit x" using assms(2) by (simp add: list_all_iff)
  have tw: "takeWhile isdigit (ds @ nl) = ds"
    using assms(3) all by (auto simp: takeWhile_append2 not_isdigit_misc)
  have dw: "dropWhile isspace (dropWhile isdigit (ds @ nl)) = []"
    using assms(3) all by (auto simp: dropWhile_append2 not_isdigit_misc)
  have sp: "dropWhile isspace (ds @ nl) = ds @ nl" using ds d by simp
  have ne: "d \<noteq> CHR ''-''" "d \<noteq> CHR ''+''" using d(1) not_isdigit_misc by auto
  show "py_int (ds @ nl) = Inr (digits_value ds)"
    using tw dw sp assms(1) ne unfolding py_int_def Let_def by (simp add: ds)
  show "py_int (CHR ''+'' # ds @ nl) = Inr (digits_value ds)"
    using tw dw sp assms(1) unfolding py_int_def Let_def by (simp add: not_isspace_sign)
  show "py_int (CHR ''-'' # ds @ nl) = Inr (- digits_value ds)"
    using tw dw sp assms(1) unfolding py_int_def Let_def by (simp add: not_isspace_sign)
qed

lemma IS_INT_match_shape:
  assumes "IS_INT_match s"
  shows "\<exists>ds nl. ds \<noteq> [] \<and> list_all isdigit ds \<and> (nl = [] \<or> nl = [CHR 0x0A])
           \<and> (s = ds @ nl \<or> s = CHR ''+'' # ds @ nl \<or> s = CHR ''-'' # ds @ nl)"
proof -
  define nl where "nl = (if s \<noteq> [] \<and> last s = CHR 0x0A then [CHR 0x0A] else [])"
  define s' where "s' = (if s \<noteq> [] \<and> last s = CHR 0x0A then butlast s else s)"
  have s: "s = s' @ nl"
  proof (cases "s \<noteq> [] \<and> last s = CHR 0x0A")
    case True
    then have "butlast s @ [CHR 0x0A] = s" by (metis append_butlast_last_id)
    then show ?thesis using True by (simp add: nl_def s'_def)
  next
    case False
    then show ?thesis by (auto simp: nl_def s'_def)
  qed
  define ds where "ds = (case s' of [] \<Rightarrow> [] | c # cs \<Rightarrow> if c = CHR ''-'' \<or> c = CHR ''+'' then cs else s')"
  have m: "ds \<noteq> [] \<and> list_all isdigit ds"
    using assms unfolding IS_INT_match_def Let_def ds_def s'_def by simp
  have "s' = ds \<or> s' = CHR ''+'' # ds \<or> s' = CHR ''-'' # ds"
    using m unfolding ds_def by (cases s') (auto split: if_splits)
  then have "s = ds @ nl \<or> s = CHR ''+'' # ds @ nl \<or> s = CHR ''-'' # ds @ nl"
    using s by auto
  moreover have "nl = [] \<or> nl = [CHR 0x0A]" by (simp add: nl_def)
  ultimately show ?thesis using m by blast
qed

lemma IS_INT_match_py_int: "IS_INT_match s \<Longrightarrow> \<exists>n. py_int s = Inr n"
  using IS_INT_match_shape[of s] py_int_digits by metis

section \<open>Properties of the constructors\<close>

lemma new_simps:
  "fst (new st c) = nxt st"
  "nxt (snd (new st c)) = Suc (nxt st)"
  "heap (snd (new st c)) r = (if r = nxt st then \<lparr>cls = c, children = []\<rparr> else heap st r)"
  by (simp_all add: new_def)

lemma putChild_simps:
  "nxt (putChild st self name res) = nxt st"
  "cls (heap (putChild st self name res) r) = cls (heap st r)"
  "children (heap (putChild st self name res) r) =
     (if r = self then AList.update name res (children (heap st self)) else children (heap st r))"
  "r \<noteq> self \<Longrightarrow> heap (putChild st self name res) r = heap st r"
  by (simp_all add: putChild_def)

lemma ChangesJsonResource_loop_frame:
  "self < nxt st \<Longrightarrow> nxt st \<le> nxt (ChangesJsonResource_loop st self cs)
   \<and> cls (heap (ChangesJsonResource_loop st self cs) self) = cls (heap st self)
   \<and> (\<forall>r. r < nxt st \<longrightarrow> r \<noteq> self \<longrightarrow> heap (ChangesJsonResource_loop st self cs) r = heap st r)"
proof (induction cs arbitrary: st)
  case Nil
  then show ?case by simp
next
  case (Cons c cs)
  define name where "name = (case change_number c of
                    Some n \<Rightarrow> if map_of (children (heap st self)) (str_int n) = None then str_int n
                              else str_int (change_id c)
                  | None \<Rightarrow> str_int (change_id c))"
  define st1 where "st1 = putChild (snd (new st (ChangeJsonResource c))) self name (nxt st)"
  have eq: "ChangesJsonResource_loop st self (c # cs) = ChangesJsonResource_loop st1 self cs"
    by (simp add: st1_def name_def Let_def new_def split: prod.splits)
  have n1: "nxt st1 = Suc (nxt st)" by (simp add: st1_def putChild_simps new_simps)
  have h1: "\<And>r. r < nxt st \<Longrightarrow> r \<noteq> self \<Longrightarrow> heap st1 r = heap st r"
    by (simp add: st1_def putChild_simps new_simps)
  have c1: "cls (heap st1 self) = cls (heap st self)"
    using Cons.prems by (simp add: st1_def putChild_simps new_simps)
  have "self < nxt st1" using Cons.prems n1 by simp
  from Cons.IH[OF this] show ?case unfolding eq using n1 h1 c1 by auto
qed


lemma BuildJsonResource_init_ok:
  assumes "getSourceStamps b \<noteq> []"
  shows "\<exists>st'. BuildJsonResource_init st b = Inr (nxt st, st')
           \<and> cls (heap st' (nxt st)) = BuildJsonResource b
           \<and> nxt st < nxt st'
           \<and> (\<forall>r. r < nxt st \<longrightarrow> heap st' r = heap st r)"
proof -
  obtain ss rest where ss: "getSourceStamps b = ss # rest" using assms by (cases "getSourceStamps b") auto
  define st1 where "st1 = snd (new st (BuildJsonResource b))"
  define st1a where "st1a = snd (new st1 (SourceStampJsonResource ss))"
  define st1b where "st1b = snd (new st1a ChangesJsonResource)"
  define st1c where "st1c = ChangesJsonResource_loop st1b (Suc (Suc (nxt st))) (changes ss)"
  define st2 where "st2 = putChild st1c (Suc (nxt st)) ''changes'' (Suc (Suc (nxt st)))"
  define st3 where "st3 = putChild st2 (nxt st) ''source_stamp'' (Suc (nxt st))"
  define st4 where "st4 = snd (new st3 (BuildStepsJsonResource b))"
  define st5 where "st5 = putChild st4 (nxt st) ''steps'' (nxt st3)"
  have eq: "BuildJsonResource_init st b = Inr (nxt st, st5)"
    unfolding BuildJsonResource_init_def SourceStampJsonResource_init_def ChangesJsonResource_init_def
    by (simp add: ss Let_def new_def st1_def st1a_def st1b_def st1c_def st2_def st3_def st4_def st5_def
          putChild_simps split: prod.splits)
  have nb: "nxt st1b = Suc (Suc (Suc (nxt st)))"
    by (simp add: st1b_def st1a_def st1_def new_simps)
  have fr: "nxt st1b \<le> nxt st1c"
       "cls (heap st1c (Suc (Suc (nxt st)))) = cls (heap st1b (Suc (Suc (nxt st))))"
       "\<And>r. r < nxt st1b \<Longrightarrow> r \<noteq> Suc (Suc (nxt st)) \<Longrightarrow> heap st1c r = heap st1b r"
    using ChangesJsonResource_loop_frame[of "Suc (Suc (nxt st))" st1b "changes ss"] nb
    by (auto simp: st1c_def)
  have n3: "nxt st3 = nxt st1c" by (simp add: st3_def st2_def putChild_simps)
  have "cls (heap st5 (nxt st)) = BuildJsonResource b"
    using fr(3)[of "nxt st"] fr(1) nb n3
    by (simp add: st5_def st4_def st3_def st2_def putChild_simps new_simps st1b_def st1a_def st1_def)
  moreover have "nxt st < nxt st5"
    using fr(1) nb n3 by (simp add: st5_def st4_def putChild_simps new_simps)
  moreover have "\<forall>r. r < nxt st \<longrightarrow> heap st5 r = heap st r"
    using fr(3) fr(1) nb n3
    by (auto simp add: st5_def st4_def st3_def st2_def putChild_simps new_simps st1b_def st1a_def st1_def)
  ultimately show ?thesis using eq by blast
qed

section \<open>Addressing a build\<close>

lemma IS_INT_match_not_special:
  assumes "IS_INT_match s"
  shows "s \<noteq> []" "s \<noteq> ''help''" "s \<noteq> ''_all''" "CHR ''<'' \<notin> set s \<or> True"
  using assms by (auto simp: IS_INT_match_def isdigit_def)

lemma resolve_AllBuilds:
  assumes "cls (heap st self) = AllBuildsJsonResource builder"
      and "map_of (children (heap st self)) s = None"
      and "s \<noteq> ''help''" and "s \<noteq> [] \<or> postpath \<noteq> []"
  shows "resolve st self (PStr s) postpath = Some (AllBuildsJsonResource_getChild st builder (PStr s))"
  using assms
  by (subst resolve.simps) (auto simp: getChildWithDefault_static_def Let_def)

lemma resolve_Builds:
  assumes "cls (heap st self) = BuildsJsonResource builder"
      and "map_of (children (heap st self)) s = None"
      and "map_of (children (heap st self)) ''_all'' = Some all"
      and "s \<noteq> ''help''" and "s \<noteq> [] \<or> postpath \<noteq> []"
  shows "resolve st self (PStr s) postpath = resolve st all (PStr s) postpath"
  using assms
  by (subst resolve.simps) (auto simp: getChildWithDefault_static_def Let_def)

text \<open>
  C4. Under the builds resource of a builder whose \<^verbatim>\<open>getBuild\<close> is the cache lookup the
  specification describes, a segment that matches \<^verbatim>\<open>_IS_INT\<close> parses as an integer
  \<open>n\<close>; for \<open>n \<ge> 0\<close> it resolves to a new \<^verbatim>\<open>BuildJsonResource\<close> of the cached build
  numbered \<open>n\<close>, for \<open>n < 0\<close> to one of the \<open>|n|\<close>-th most recent cached build, and
  when the cache has no such build to the error page \<^verbatim>\<open>NoResource\<close>: nothing but the
  cache is consulted.
\<close>

theorem build_addressing:
  assumes "IS_INT_match s"
      and "getBuild builder = getBuild_cached cache"
      and "\<forall>b \<in> set cache. getSourceStamps b \<noteq> []"
      and "cls (heap st self) = BuildsJsonResource builder"
      and "children (heap st self) = [(''_all'', all)]"
      and "cls (heap st all) = AllBuildsJsonResource builder"
      and "children (heap st all) = []"
  shows "\<exists>n st'. py_int s = Inr n
         \<and> JsonResource_getChildWithDefault st self (PStr s) postpath = Inr (nxt st, st')
         \<and> cls (heap st' (nxt st)) =
             (if 0 \<le> n then
                (case find (\<lambda>b. getNumber b = n) cache of
                   Some b \<Rightarrow> BuildJsonResource b | None \<Rightarrow> NoResource)
              else if nat (- n) \<le> length cache then BuildJsonResource (cache ! (nat (- n) - 1))
              else NoResource)"
proof -
  obtain n where n: "py_int s = Inr n" using IS_INT_match_py_int[OF assms(1)] by blast
  have sp: "s \<noteq> []" "s \<noteq> ''help''" "s \<noteq> ''_all''" using IS_INT_match_not_special[OF assms(1)] by auto
  have r: "JsonResource_getChildWithDefault st self (PStr s) postpath
             = AllBuildsJsonResource_getChild st builder (PStr s)"
    unfolding JsonResource_getChildWithDefault_def
    using resolve_Builds[OF assms(4), of s all postpath] resolve_AllBuilds[OF assms(6), of s postpath] sp
    by (simp add: assms(5,7))
  have g: "AllBuildsJsonResource_getChild st builder (PStr s) =
             (case getBuild_cached cache n of
                Some b \<Rightarrow> BuildJsonResource_init st b | None \<Rightarrow> Inr (new st NoResource))"
    using assms(1) n by (simp add: AllBuildsJsonResource_getChild_def path_is_int_def int_of_path_def assms(2))
  show ?thesis
  proof (cases "getBuild_cached cache n")
    case None
    then have "AllBuildsJsonResource_getChild st builder (PStr s) = Inr (nxt st, snd (new st NoResource))"
      using g by (simp add: new_def)
    moreover have "cls (heap (snd (new st NoResource)) (nxt st)) = NoResource" by (simp add: new_simps)
    moreover have "(if 0 \<le> n then
                (case find (\<lambda>b. getNumber b = n) cache of
                   Some b \<Rightarrow> BuildJsonResource b | None \<Rightarrow> NoResource)
              else if nat (- n) \<le> length cache then BuildJsonResource (cache ! (nat (- n) - 1))
              else NoResource) = NoResource"
      using None by (auto simp: getBuild_cached_def split: if_splits)
    ultimately show ?thesis using n r by auto
  next
    case (Some b)
    then have bin: "b \<in> set cache"
      by (auto simp: getBuild_cached_def find_Some_iff split: if_splits)
    then have "getSourceStamps b \<noteq> []" using assms(3) by blast
    from BuildJsonResource_init_ok[OF this, of st] obtain st' where
      st': "BuildJsonResource_init st b = Inr (nxt st, st')" "cls (heap st' (nxt st)) = BuildJsonResource b"
      by blast
    have "(if 0 \<le> n then
                (case find (\<lambda>b. getNumber b = n) cache of
                   Some b \<Rightarrow> BuildJsonResource b | None \<Rightarrow> NoResource)
              else if nat (- n) \<le> length cache then BuildJsonResource (cache ! (nat (- n) - 1))
              else NoResource) = BuildJsonResource b"
      using Some by (auto simp: getBuild_cached_def split: if_splits)
    then show ?thesis using n r g Some st' by auto
  qed
qed

lemma demo_cache_eq:
  "demo_cache = map demo_build [10, 9, 8, 7, 6, 5, 4, 3, 2, 1]"
  by (simp add: demo_cache_def demo_history_def upt_rec)

lemma demo_state_heap:
  "nxt demo_state = 2"
  "cls (heap demo_state 0) = BuildsJsonResource demo"
  "children (heap demo_state 0) = [(''_all'', 1)]"
  "cls (heap demo_state (Suc 0)) = AllBuildsJsonResource demo"
  "children (heap demo_state (Suc 0)) = []"
  "cls (heap demo_state 1) = AllBuildsJsonResource demo"
  "children (heap demo_state 1) = []"
  by (simp_all add: demo_state_def BuildsJsonResource_init_def new_def putChild_def empty_state_def Let_def)

lemma demo_hyps:
  "getBuild demo = getBuild_cached demo_cache"
  "\<forall>b \<in> set demo_cache. getSourceStamps b \<noteq> []"
  by (simp_all add: demo_def demo_cache_def demo_builder_def demo_history_def demo_build_def)

text \<open>
  The theorem at the builder with the builds \<open>1, \<dots>, 10\<close> cached: \<^verbatim>\<open>-1\<close> is build 10,
  \<^verbatim>\<open>-3\<close> build 8, \<^verbatim>\<open>7\<close> build 7, and \<^verbatim>\<open>-20\<close> is not found.
\<close>

theorem build_addressing_witness:
  "(\<exists>st'. JsonResource_getChildWithDefault demo_state 0 (PStr ''-1'') [] = Inr (2, st')
         \<and> cls (heap st' 2) = BuildJsonResource (demo_build 10))
   \<and> (\<exists>st'. JsonResource_getChildWithDefault demo_state 0 (PStr ''-3'') [] = Inr (2, st')
         \<and> cls (heap st' 2) = BuildJsonResource (demo_build 8))
   \<and> (\<exists>st'. JsonResource_getChildWithDefault demo_state 0 (PStr ''7'') [] = Inr (2, st')
         \<and> cls (heap st' 2) = BuildJsonResource (demo_build 7))
   \<and> (\<exists>st'. JsonResource_getChildWithDefault demo_state 0 (PStr ''-20'') [] = Inr (2, st')
         \<and> cls (heap st' 2) = NoResource)"
proof -
  note inst = build_addressing [where builder = demo and cache = demo_cache
      and st = demo_state and self = 0 and all = 1 and postpath = "[]", OF _ demo_hyps]
  have m: "IS_INT_match ''-1''" "IS_INT_match ''-3''" "IS_INT_match ''7''" "IS_INT_match ''-20''"
    by (simp_all add: IS_INT_match_def isdigit_def)
  have p: "py_int ''-1'' = Inr (- 1)" "py_int ''-3'' = Inr (- 3)" "py_int ''7'' = Inr 7"
          "py_int ''-20'' = Inr (- 20)"
    by (simp_all add: py_int_def isdigit_def isspace_def digits_value_def)
  have f: "find (\<lambda>b. getNumber b = 7) demo_cache = Some (demo_build 7)"
    by (simp add: demo_cache_eq demo_build_def)
  show ?thesis
    using inst[OF m(1)] inst[OF m(2)] inst[OF m(3)] inst[OF m(4)] p f
    by (simp add: demo_state_heap) (simp add: demo_cache_eq)
qed

section \<open>Delegation to the child _all\<close>

text \<open>
  C10, as the code has it. A segment that is not a static child of the builds resource, is
  not \<^verbatim>\<open>help\<close> and is not the empty segment that ends a URL resolves under the
  builds resource to exactly what it resolves to under its child \<^verbatim>\<open>_all\<close>: the same
  result in the same state.
\<close>

theorem builds_delegates_to_all:
  assumes "cls (heap st self) = BuildsJsonResource builder"
      and "map_of (children (heap st self)) ''_all'' = Some all"
      and "map_of (children (heap st self)) s = None"
      and "s \<noteq> ''help''"
      and "s \<noteq> [] \<or> postpath \<noteq> []"
  shows "JsonResource_getChildWithDefault st self (PStr s) postpath
           = JsonResource_getChildWithDefault st all (PStr s) postpath"
  unfolding JsonResource_getChildWithDefault_def
  using resolve_Builds[OF assms(1,3,2,4,5)] by simp

lemma less_than_not_int: "CHR ''<'' \<in> set s \<Longrightarrow> \<not> IS_INT_match s"
proof
  assume a: "CHR ''<'' \<in> set s" and "IS_INT_match s"
  then obtain ds nl where d: "list_all isdigit ds" "nl = [] \<or> nl = [CHR 0x0A]"
     "s = ds @ nl \<or> s = CHR ''+'' # ds @ nl \<or> s = CHR ''-'' # ds @ nl"
    using IS_INT_match_shape by blast
  have "\<not> isdigit CHR ''<''" by (simp add: isdigit_def)
  then have "CHR ''<'' \<notin> set ds" using d(1) by (auto simp: list_all_iff)
  then show False using a d(2,3) by auto
qed

lemma less_than_not_special: "CHR ''<'' \<in> set s \<Longrightarrow> s \<noteq> [] \<and> s \<noteq> ''help'' \<and> s \<noteq> ''_all''"
  by auto

text \<open>The theorem at the segment \<^verbatim>\<open><5\<close> under the builds resource of \<^verbatim>\<open>demo\<close>.\<close>

theorem builds_delegates_to_all_witness:
  "JsonResource_getChildWithDefault demo_state 0 (PStr ''<5'') []
     = JsonResource_getChildWithDefault demo_state 1 (PStr ''<5'') []"
  by (rule builds_delegates_to_all[where builder = demo])
     (simp_all add: demo_state_heap)

text \<open>
  The claim as stated fails at the segment \<^verbatim>\<open>help\<close>, which is no static child: under
  the builds resource it is the help page of \<^verbatim>\<open>BuildsJsonResource\<close>, under
  \<^verbatim>\<open>_all\<close> that of \<^verbatim>\<open>AllBuildsJsonResource\<close>, with another text, another title
  and other children.
\<close>

theorem help_differs_under_all:
  "map_sum id (\<lambda>(r, st). cls (heap st r)) (JsonResource_getChildWithDefault demo_state 0 (PStr ''help'') [])
   \<noteq> map_sum id (\<lambda>(r, st). cls (heap st r)) (JsonResource_getChildWithDefault demo_state 1 (PStr ''help'') [])"
  by (simp add: JsonResource_getChildWithDefault_def resolve.simps getChildWithDefault_static_def
        demo_state_heap new_def Let_def)

section \<open>The last N builds\<close>

text \<open>
  C8. Under the builds resource of a builder whose \<^verbatim>\<open>generateFinishedBuilds\<close> is the
  scan of the history the specification describes, a segment that contains \<^verbatim>\<open><\<close>
  resolves to a new \<^verbatim>\<open>PastBuildsJsonResource\<close> with the number \<open>N\<close> that \<^verbatim>\<open>int\<close>
  parses from the segment without its \<^verbatim>\<open><\<close>, or 15 when it does not parse; and that
  resource renders the list of the \<open>N\<close> most recent builds of the history that satisfy
  all supplied branch, codebase and result filters, fewer when the history has fewer.
\<close>

theorem last_n_addressing:
  assumes "CHR ''<'' \<in> set s"
      and "cls (heap st self) = BuildsJsonResource builder"
      and "children (heap st self) = [(''_all'', all)]"
      and "cls (heap st all) = AllBuildsJsonResource builder"
      and "children (heap st all) = []"
      and "generateFinishedBuilds builder = generateFinishedBuilds_scan on_branch found history"
      and "N = (case py_int (filter (\<lambda>c. c \<noteq> CHR ''<'') s) of Inl e \<Rightarrow> 15 | Inr n \<Rightarrow> n)"
  shows "\<exists>st'. JsonResource_getChildWithDefault st self (PStr s) postpath = Inr (nxt st, st')
         \<and> cls (heap st' (nxt st)) = PastBuildsJsonResource N builder
         \<and> asDict_depth (Suc d) req st' (nxt st) pp =
             Inr (JList (map build_asDict (take (nat N)
                    (filter (\<lambda>b. (arg_branches req = [] \<or> on_branch b (arg_branches req))
                               \<and> (arg_codebases req = [] \<or> found b (arg_codebases req))
                               \<and> (case arg_results req of None \<Rightarrow> True
                                   | Some rs \<Rightarrow> results b \<in> set rs))
                       history))), st')"
proof -
  have sp: "s \<noteq> []" "s \<noteq> ''help''" "s \<noteq> ''_all''" using assms(1) by auto
  have r: "JsonResource_getChildWithDefault st self (PStr s) postpath
             = AllBuildsJsonResource_getChild st builder (PStr s)"
    unfolding JsonResource_getChildWithDefault_def
    using resolve_Builds[OF assms(2), of s all postpath] resolve_AllBuilds[OF assms(4), of s postpath] sp
    by (simp add: assms(3,5))
  define st' where "st' = snd (new st (PastBuildsJsonResource N builder))"
  have g: "AllBuildsJsonResource_getChild st builder (PStr s) = Inr (nxt st, st')"
    using assms(1) less_than_not_int[OF assms(1)]
    by (simp add: AllBuildsJsonResource_getChild_def path_is_int_def assms(7) st'_def new_def Let_def)
  have c: "cls (heap st' (nxt st)) = PastBuildsJsonResource N builder"
    by (simp add: st'_def new_simps)
  show ?thesis
    using r g c
    by (simp add: PastBuildsJsonResource_asDict_def assms(6) generateFinishedBuilds_scan_def)
qed

lemma demo_scan:
  "generateFinishedBuilds demo
     = generateFinishedBuilds_scan (\<lambda>b branches. True) (\<lambda>b codebases. True) demo_cache"
  by (simp add: demo_def demo_cache_def demo_builder_def)

text \<open>
  The theorem at \<^verbatim>\<open><3\<close> with the result filter \<^verbatim>\<open>results=0\<close>, which the builds 10, 8
  and 6 are the most recent to pass, and at \<^verbatim>\<open><abc\<close>, which asks for 15 builds of the
  10 there are.
\<close>

theorem last_n_addressing_witness:
  "(\<exists>st'. JsonResource_getChildWithDefault demo_state 0 (PStr ''<3'') [] = Inr (2, st')
         \<and> cls (heap st' 2) = PastBuildsJsonResource 3 demo
         \<and> asDict_depth 1 (no_args\<lparr>arg_results := Some [0]\<rparr>) st' 2 [] =
             Inr (JList (map build_asDict [demo_build 10, demo_build 8, demo_build 6]), st'))
   \<and> (\<exists>st'. JsonResource_getChildWithDefault demo_state 0 (PStr ''<abc'') [] = Inr (2, st')
         \<and> cls (heap st' 2) = PastBuildsJsonResource 15 demo
         \<and> asDict_depth 1 no_args st' 2 [] =
             Inr (JList (map build_asDict demo_cache), st'))"
proof -
  have p: "(case py_int (filter (\<lambda>c. c \<noteq> CHR ''<'') ''<3'') of Inl e \<Rightarrow> 15 | Inr n \<Rightarrow> n) = 3"
          "(case py_int (filter (\<lambda>c. c \<noteq> CHR ''<'') ''<abc'') of Inl e \<Rightarrow> 15 | Inr n \<Rightarrow> n) = 15"
    by (simp_all add: py_int_def isdigit_def isspace_def digits_value_def)
  have a: "CHR ''<'' \<in> set ''<3''" "CHR ''<'' \<in> set ''<abc''" by simp_all
  note h = demo_state_heap(2,3,6,7)
  from last_n_addressing[OF a(1) h demo_scan p(1)[symmetric], of "[]" 0 "no_args\<lparr>arg_results := Some [0]\<rparr>" "[]"]
  have 1: "\<exists>st'. JsonResource_getChildWithDefault demo_state 0 (PStr ''<3'') [] = Inr (2, st')
         \<and> cls (heap st' 2) = PastBuildsJsonResource 3 demo
         \<and> asDict_depth 1 (no_args\<lparr>arg_results := Some [0]\<rparr>) st' 2 [] =
             Inr (JList (map build_asDict [demo_build 10, demo_build 8, demo_build 6]), st')"
    by (simp add: demo_state_heap demo_cache_eq no_args_def demo_build_def)
  from last_n_addressing[OF a(2) h demo_scan p(2)[symmetric], of "[]" 0 no_args "[]"]
  have 2: "\<exists>st'. JsonResource_getChildWithDefault demo_state 0 (PStr ''<abc'') [] = Inr (2, st')
         \<and> cls (heap st' 2) = PastBuildsJsonResource 15 demo
         \<and> asDict_depth 1 no_args st' 2 [] =
             Inr (JList (map build_asDict demo_cache), st')"
    by (simp add: demo_state_heap demo_cache_eq no_args_def)
  from 1 2 show ?thesis by blast
qed

section \<open>Memoization of dynamic children\<close>

lemma resolve_int_under_Builds:
  assumes "IS_INT_match s" and "py_int s = Inr n" and "getBuild builder n = Some b"
      and "cls (heap st self) = BuildsJsonResource builder"
      and "children (heap st self) = [(''_all'', all)]"
      and "cls (heap st all) = AllBuildsJsonResource builder"
      and "children (heap st all) = []"
  shows "JsonResource_getChildWithDefault st self (PStr s) postpath = BuildJsonResource_init st b"
proof -
  have sp: "s \<noteq> []" "s \<noteq> ''help''" "s \<noteq> ''_all''" using IS_INT_match_not_special[OF assms(1)] by auto
  have "JsonResource_getChildWithDefault st self (PStr s) postpath
             = AllBuildsJsonResource_getChild st builder (PStr s)"
    unfolding JsonResource_getChildWithDefault_def
    using resolve_Builds[OF assms(4), of s all postpath] resolve_AllBuilds[OF assms(6), of s postpath] sp
    by (simp add: assms(5,7))
  then show ?thesis
    using assms(1,2,3) by (simp add: AllBuildsJsonResource_getChild_def path_is_int_def int_of_path_def)
qed

lemma demo_latest:
  "IS_INT_match ''-1''" "py_int ''-1'' = Inr (- 1)" "getBuild demo (- 1) = Some (demo_build 10)"
  by (simp_all add: IS_INT_match_def isdigit_def py_int_def isspace_def digits_value_def
        demo_hyps getBuild_cached_def demo_cache_eq)

lemma demo_init:
  "BuildJsonResource_init demo_state (demo_build 10) = Inr (2, demo_state')"
  "nxt demo_state' = 6"
  "heap demo_state' 0 = heap demo_state 0"
  "heap demo_state' 1 = heap demo_state 1"
  "heap demo_state' (Suc 0) = heap demo_state (Suc 0)"
  unfolding demo_state'_def built_def
  by (simp_all add: BuildJsonResource_init_def SourceStampJsonResource_init_def ChangesJsonResource_init_def
        demo_build_def new_def putChild_def Let_def demo_state_heap)

text \<open>
  The claim as stated fails under the builds resource: \<^verbatim>\<open>AllBuildsJsonResource.getChild\<close>
  stores nothing in \<^verbatim>\<open>children\<close>, so resolving \<^verbatim>\<open>-1\<close> a second time builds
  another \<^verbatim>\<open>BuildJsonResource\<close>: the first resolution returns the object at address 2,
  the second, in the state the first left, the object at address 6.
\<close>

theorem builds_child_not_memoized:
  "map_sum id fst (JsonResource_getChildWithDefault demo_state 0 (PStr ''-1'') []) = Inr 2
   \<and> map_sum id fst (JsonResource_getChildWithDefault
          (snd (projr (JsonResource_getChildWithDefault demo_state 0 (PStr ''-1'') []))) 0 (PStr ''-1'') [])
       = Inr 6"
proof -
  have 1: "JsonResource_getChildWithDefault demo_state 0 (PStr ''-1'') [] = Inr (2, demo_state')"
    using resolve_int_under_Builds[OF demo_latest demo_state_heap(2,3,6,7)] demo_init(1) by simp
  have 2: "JsonResource_getChildWithDefault demo_state' 0 (PStr ''-1'') []
             = BuildJsonResource_init demo_state' (demo_build 10)"
    by (rule resolve_int_under_Builds[OF demo_latest, where all = 1])
       (simp_all only: demo_init demo_state_heap)
  have 3: "map_sum id fst (BuildJsonResource_init demo_state' (demo_build 10)) = Inr 6"
    by (simp add: BuildJsonResource_init_def SourceStampJsonResource_init_def ChangesJsonResource_init_def
        demo_build_def new_def Let_def demo_init)
  show ?thesis using 1 2 3 by simp
qed

lemma digit_nth_isdigit: "k < 10 \<Longrightarrow> isdigit (''0123456789'' ! k)"
proof -
  assume "k < 10"
  then have "''0123456789'' ! k \<in> set ''0123456789''" by (intro nth_mem) simp
  then show ?thesis by (auto simp: isdigit_def)
qed

lemma str_nat_digits: "str_nat n \<noteq> [] \<and> list_all isdigit (str_nat n)"
proof (induction n rule: str_nat.induct)
  case (1 n)
  show ?case
  proof (cases "n < 10")
    case True
    then show ?thesis by (subst (1 2) str_nat.simps) (simp add: digit_nth_isdigit)
  next
    case False
    then show ?thesis using 1 by (subst (1 2) str_nat.simps) (simp add: digit_nth_isdigit)
  qed
qed

lemma str_nat_not_special: "str_nat n \<noteq> []" "str_nat n \<noteq> ''help''"
proof -
  show "str_nat n \<noteq> []" using str_nat_digits by blast
  have "\<not> list_all isdigit ''help''" by (simp add: isdigit_def)
  then show "str_nat n \<noteq> ''help''" using str_nat_digits by metis
qed

lemma resolve_static_child:
  assumes "isJsonResource (cls (heap st self))"
      and "map_of (children (heap st self)) s = Some child"
      and "s \<noteq> ''help''" and "s \<noteq> [] \<or> postpath \<noteq> []"
  shows "JsonResource_getChildWithDefault st self (PStr s) postpath = Inr (child, st)"
proof -
  have "\<not> is_NoResource (cls (heap st self))" using assms(1) by (cases "cls (heap st self)") auto
  then show ?thesis
    unfolding JsonResource_getChildWithDefault_def using assms
    by (subst resolve.simps) (auto simp: getChildWithDefault_static_def Let_def)
qed

lemma list_index_less: "list_index xs i = Inr j \<Longrightarrow> j < length xs"
  by (auto simp: list_index_def Let_def split: if_splits)

lemma steps_dict_get_less: "steps_dict_get steps name = Some j \<Longrightarrow> j < length steps"
proof -
  assume a: "steps_dict_get steps name = Some j"
  then obtain js where "filter (\<lambda>j. step_getName (steps ! j) = name) (rev [0..<length steps]) = j # js"
    by (auto simp: steps_dict_get_def split: list.splits)
  then have "j \<in> set (filter (\<lambda>j. step_getName (steps ! j) = name) (rev [0..<length steps]))" by simp
  then show ?thesis by simp
qed

text \<open>
  C5, as the code has it. When \<^verbatim>\<open>BuildStepsJsonResource.getChild\<close> constructs a child
  for a step, it stores it under the index of the step and under its name: resolving the
  decimal index, or the name (unless the name is \<^verbatim>\<open>help\<close> or empty), in the state that
  results returns that same object and changes nothing.
\<close>

theorem steps_child_memoized:
  assumes "self < nxt st"
      and "cls (heap st self) = BuildStepsJsonResource build_status"
      and "BuildStepsJsonResource_getChild st self build_status p = Inr (child, st')"
      and "isJsonResource (cls (heap st' child))"
  shows "\<exists>index < length (getSteps build_status).
           cls (heap st' child) = BuildStepJsonResource (getSteps build_status ! index)
         \<and> JsonResource_getChildWithDefault st' self (PStr (str_nat index)) postpath = Inr (child, st')
         \<and> (step_getName (getSteps build_status ! index) \<noteq> ''help''
            \<and> (step_getName (getSteps build_status ! index) \<noteq> [] \<or> postpath \<noteq> [])
            \<longrightarrow> JsonResource_getChildWithDefault st' self
                  (PStr (step_getName (getSteps build_status ! index))) postpath = Inr (child, st'))"
proof -
  define found where "found =
     (if path_is_int p then
              (case int_of_path p of
                 Inl e \<Rightarrow> Inl e
               | Inr n \<Rightarrow> (case list_index (getSteps build_status) n of
                             Inl e \<Rightarrow> Inl e | Inr j \<Rightarrow> Inr (Some j)))
            else (case p of PStr s \<Rightarrow> Inr (steps_dict_get (getSteps build_status) s)
                          | PInt i \<Rightarrow> Inr None))"
  have g: "BuildStepsJsonResource_getChild st self build_status p =
     (case found of
        Inl e \<Rightarrow> Inl e
      | Inr None \<Rightarrow> Inr (new st NoResource)
      | Inr (Some index) \<Rightarrow>
          (let build_step_status = getSteps build_status ! index;
               (child, st1) = new st (BuildStepJsonResource build_step_status);
               st2 = putChild st1 self (str_nat index) child;
               st3 = putChild st2 self (step_getName build_step_status) child
           in Inr (child, st3)))"
    by (simp add: BuildStepsJsonResource_getChild_def found_def)
  obtain index where f: "found = Inr (Some index)"
  proof (cases found)
    case (Inl e)
    then show ?thesis using g assms(3) by simp
  next
    case (Inr opt)
    show ?thesis
    proof (cases opt)
      case None
      then have "cls (heap st' child) = NoResource"
        using g Inr assms(3) by (auto simp: new_def)
      then show ?thesis using assms(4) by simp
    next
      case (Some j)
      then show ?thesis using Inr that by simp
    qed
  qed
  have lt: "index < length (getSteps build_status)"
    using f list_index_less steps_dict_get_less
    by (auto simp: found_def split: if_splits sum.splits path.splits)
  let ?step = "getSteps build_status ! index"
  have ch: "child = nxt st"
   and st': "st' = putChild (putChild (snd (new st (BuildStepJsonResource ?step))) self (str_nat index) (nxt st))
                      self (step_getName ?step) (nxt st)"
    using g f assms(3) by (auto simp: Let_def new_def)
  have ne: "self \<noteq> nxt st" using assms(1) by simp
  have c1: "cls (heap st' child) = BuildStepJsonResource ?step"
    by (simp add: st' ch putChild_simps new_simps)
  have c2: "isJsonResource (cls (heap st' self))"
    using ne assms(2) by (simp add: st' putChild_simps new_simps)
  have m1: "map_of (children (heap st' self)) (str_nat index) = Some child"
    by (simp add: st' ch putChild_simps update_conv')
  have m2: "map_of (children (heap st' self)) (step_getName ?step) = Some child"
    by (simp add: st' ch putChild_simps update_conv')
  have r1: "JsonResource_getChildWithDefault st' self (PStr (str_nat index)) postpath = Inr (child, st')"
    using resolve_static_child[OF c2 m1] str_nat_not_special by simp
  have r2: "step_getName ?step \<noteq> ''help'' \<and> (step_getName ?step \<noteq> [] \<or> postpath \<noteq> [])
            \<longrightarrow> JsonResource_getChildWithDefault st' self (PStr (step_getName ?step)) postpath = Inr (child, st')"
    using resolve_static_child[OF c2 m2] by simp
  show ?thesis using lt c1 r1 r2 by blast
qed

lemma steps_state_facts:
  "0 < nxt steps_state"
  "cls (heap steps_state 0) = BuildStepsJsonResource (demo_build 7)"
  by (simp_all add: steps_state_def new_def empty_state_def)

lemma steps_resolved:
  "BuildStepsJsonResource_getChild steps_state 0 (demo_build 7) (PStr ''test'') = Inr (1, steps_state')"
  "cls (heap steps_state' 1) = BuildStepJsonResource (getSteps (demo_build 7) ! 1)"
  unfolding steps_state'_def
  by (simp_all add: BuildStepsJsonResource_getChild_def path_is_int_def IS_INT_match_def isdigit_def
        steps_dict_get_def demo_build_def upt_rec Let_def new_def putChild_def steps_state_def empty_state_def)

text \<open>The theorem at the steps of build 7, after the name \<^verbatim>\<open>test\<close> of step 1 was resolved.\<close>

theorem steps_child_memoized_witness:
  "JsonResource_getChildWithDefault steps_state' 0 (PStr ''1'') [] = Inr (1, steps_state')
   \<and> JsonResource_getChildWithDefault steps_state' 0 (PStr ''test'') [] = Inr (1, steps_state')"
proof -
  have j: "isJsonResource (cls (heap steps_state' 1))" unfolding steps_resolved(2) by simp
  from steps_child_memoized[OF steps_state_facts steps_resolved(1) j, of "[]"]
  obtain index where i: "index < length (getSteps (demo_build 7))"
     "cls (heap steps_state' 1) = BuildStepJsonResource (getSteps (demo_build 7) ! index)"
     "JsonResource_getChildWithDefault steps_state' 0 (PStr (str_nat index)) [] = Inr (1, steps_state')"
     "step_getName (getSteps (demo_build 7) ! index) \<noteq> ''help''
            \<and> (step_getName (getSteps (demo_build 7) ! index) \<noteq> [] \<or> [] \<noteq> ([]::string list))
            \<longrightarrow> JsonResource_getChildWithDefault steps_state' 0
                  (PStr (step_getName (getSteps (demo_build 7) ! index))) [] = Inr (1, steps_state')"
    by blast
  have "index = 0 \<or> index = 1" using i(1) by (auto simp: demo_build_def)
  moreover have "index \<noteq> 0"
  proof
    assume "index = 0"
    then show False using i(2) unfolding steps_resolved(2) by (simp add: demo_build_def)
  qed
  ultimately have "index = 1" by simp
  then show ?thesis using i(3,4) by (simp add: str_nat.simps demo_build_def)
qed

section \<open>Rendering all builds\<close>

lemma resolve_PInt_AllBuilds:
  assumes "cls (heap st self) = AllBuildsJsonResource builder"
  shows "JsonResource_getChildWithDefault st self (PInt i) postpath =
           (case getBuild builder i of
              Some b \<Rightarrow> BuildJsonResource_init st b
            | None \<Rightarrow> Inr (new st NoResource))"
  unfolding JsonResource_getChildWithDefault_def
  using assms
  by (subst resolve.simps)
     (simp add: getChildWithDefault_static_def Let_def AllBuildsJsonResource_getChild_def
        path_is_int_def int_of_path_def)

lemma AllBuildsJsonResource_loop_fold:
  assumes "self < nxt st" and "cls (heap st self) = AllBuildsJsonResource builder"
      and "\<forall>i \<in> set is. \<forall>b. getBuild builder (- i) = Some b \<longrightarrow> getSourceStamps b \<noteq> []"
  shows "\<exists>st'. AllBuildsJsonResource_loop req builder st self postpath is res
           = Inr (fold (keep_build req builder) is res, st')"
  using assms
proof (induction "is" arbitrary: st res)
  case Nil
  then show ?case by simp
next
  case (Cons i "is")
  show ?case
  proof (cases "getBuild builder (- i)")
    case None
    define st1 where "st1 = snd (new st NoResource)"
    have r: "JsonResource_getChildWithDefault st self (PInt (- i)) postpath = Inr (nxt st, st1)"
      using resolve_PInt_AllBuilds[OF Cons.prems(2), of "- i" postpath] None by (simp add: st1_def new_def)
    have c: "cls (heap st1 (nxt st)) = NoResource" by (simp add: st1_def new_simps)
    have inv: "self < nxt st1" "cls (heap st1 self) = AllBuildsJsonResource builder"
      using Cons.prems(1,2) by (simp_all add: st1_def new_simps)
    from Cons.IH[OF inv, of res] Cons.prems(3) obtain st' where
      "AllBuildsJsonResource_loop req builder st1 self postpath is res
         = Inr (fold (keep_build req builder) is res, st')" by auto
    moreover have "keep_build req builder i res = res" using None by (simp add: keep_build_def)
    ultimately show ?thesis using r c by simp
  next
    case (Some b)
    then have "getSourceStamps b \<noteq> []" using Cons.prems(3) by simp
    from BuildJsonResource_init_ok[OF this, of st] obtain st1 where
      st1: "BuildJsonResource_init st b = Inr (nxt st, st1)" "cls (heap st1 (nxt st)) = BuildJsonResource b"
           "nxt st < nxt st1" "\<forall>r. r < nxt st \<longrightarrow> heap st1 r = heap st r" by blast
    have r: "JsonResource_getChildWithDefault st self (PInt (- i)) postpath = Inr (nxt st, st1)"
      using resolve_PInt_AllBuilds[OF Cons.prems(2), of "- i" postpath] Some st1(1) by simp
    have inv: "self < nxt st1" "cls (heap st1 self) = AllBuildsJsonResource builder"
      using Cons.prems(1,2) st1(3,4) by simp_all
    have ih: "\<And>res'. \<exists>st'. AllBuildsJsonResource_loop req builder st1 self postpath is res'
         = Inr (fold (keep_build req builder) is res', st')"
      using Cons.IH[OF inv] Cons.prems(3) by auto
    have k: "keep_build req builder i res =
          (if (arg_codebases req = [] \<or> foundCodebasesInBuild builder b (arg_codebases req))
             \<and> (case arg_results req of None \<Rightarrow> True | Some rf \<Rightarrow> results b \<in> set rf)
          then AList.update (KInt (getNumber b)) (build_asDict b) res
          else res)"
      using Some by (simp add: keep_build_def)
    show ?thesis
      using r st1(2) ih[of res] ih[of "AList.update (KInt (getNumber b)) (build_asDict b) res"]
      by (cases "arg_results req") (auto simp: k)
  qed
qed

lemma AllBuildsJsonResource_asDict_fold:
  assumes "self < nxt st" and "cls (heap st self) = AllBuildsJsonResource builder"
      and "(case arg_max req of None \<Rightarrow> Inr (caches_Builds builder) | Some s \<Rightarrow> py_int s) = Inr m"
      and "\<forall>i \<in> set (map int [0..<nat m]). \<forall>b. getBuild builder (- i) = Some b \<longrightarrow> getSourceStamps b \<noteq> []"
  shows "\<exists>st'. AllBuildsJsonResource_asDict req builder st self postpath
           = Inr (JDict (fold (keep_build req builder) (map int [0..<nat m]) []), st')"
proof -
  from AllBuildsJsonResource_loop_fold[OF assms(1,2,4), of req postpath "[]"]
  show ?thesis by (auto simp: AllBuildsJsonResource_asDict_def assms(3))
qed

lemma length_update_le: "length (AList.update k v al) \<le> Suc (length al)"
  by (induction al) auto

lemma keep_build_length: "length (fold (keep_build req builder) is res) \<le> length is + length res"
proof (induction "is" arbitrary: res)
  case Nil
  then show ?case by simp
next
  case (Cons i "is")
  have "length (keep_build req builder i res) \<le> Suc (length res)"
    using length_update_le[of _ _ res] by (auto simp: keep_build_def split: option.splits)
  then show ?case using Cons[of "keep_build req builder i res"] by simp
qed

lemma set_update_subset: "set (AList.update k v al) \<subseteq> insert (k, v) (set al)"
  by (induction al) auto

lemma keep_build_entries:
  "(k, v) \<in> set (fold (keep_build req builder) is res) \<Longrightarrow>
     (k, v) \<in> set res \<or>
     (\<exists>i \<in> set is. \<exists>b. getBuild builder (- i) = Some b \<and> k = KInt (getNumber b)
         \<and> v = build_asDict b
         \<and> (arg_codebases req = [] \<or> foundCodebasesInBuild builder b (arg_codebases req))
         \<and> (case arg_results req of None \<Rightarrow> True | Some rf \<Rightarrow> results b \<in> set rf))"
proof (induction "is" arbitrary: res)
  case Nil
  then show ?case by simp
next
  case (Cons i "is")
  from Cons.IH[of "keep_build req builder i res"] Cons.prems
  consider "(k, v) \<in> set (keep_build req builder i res)"
    | "\<exists>i \<in> set is. \<exists>b. getBuild builder (- i) = Some b \<and> k = KInt (getNumber b)
         \<and> v = build_asDict b
         \<and> (arg_codebases req = [] \<or> foundCodebasesInBuild builder b (arg_codebases req))
         \<and> (case arg_results req of None \<Rightarrow> True | Some rf \<Rightarrow> results b \<in> set rf)"
    by auto
  then show ?case
  proof cases
    case 1
    show ?thesis
    proof (cases "getBuild builder (- i)")
      case None
      then show ?thesis using 1 by (simp add: keep_build_def)
    next
      case (Some b)
      show ?thesis
      proof (cases "(arg_codebases req = [] \<or> foundCodebasesInBuild builder b (arg_codebases req))
         \<and> (case arg_results req of None \<Rightarrow> True | Some rf \<Rightarrow> results b \<in> set rf)")
        case True
        then have "keep_build req builder i res = AList.update (KInt (getNumber b)) (build_asDict b) res"
          using Some by (simp add: keep_build_def)
        then have "(k, v) = (KInt (getNumber b), build_asDict b) \<or> (k, v) \<in> set res"
          using 1 set_update_subset[of "KInt (getNumber b)" "build_asDict b" res] by auto
        then show ?thesis using Some True by auto
      next
        case False
        then have "keep_build req builder i res = res" using Some by (auto simp add: keep_build_def)
        then show ?thesis using 1 by simp
      qed
    qed
  next
    case 2
    then show ?thesis by auto
  qed
qed

lemma keep_build_cases:
  "keep_build req builder i res = res \<or>
   (\<exists>b. getBuild builder (- i) = Some b
      \<and> (arg_codebases req = [] \<or> foundCodebasesInBuild builder b (arg_codebases req))
      \<and> (case arg_results req of None \<Rightarrow> True | Some rf \<Rightarrow> results b \<in> set rf)
      \<and> keep_build req builder i res = AList.update (KInt (getNumber b)) (build_asDict b) res)"
  by (auto simp: keep_build_def split: option.splits)

lemma keep_build_kept:
  assumes "map_of res (KInt n) = Some (build_asDict b0)"
      and "getNumber b0 = n"
      and "arg_codebases req = [] \<or> foundCodebasesInBuild builder b0 (arg_codebases req)"
      and "case arg_results req of None \<Rightarrow> True | Some rf \<Rightarrow> results b0 \<in> set rf"
      and "\<exists>j \<in> J. getBuild builder (- j) = Some b0"
      and "set is \<subseteq> J"
  shows "\<exists>b'. getNumber b' = n
           \<and> (arg_codebases req = [] \<or> foundCodebasesInBuild builder b' (arg_codebases req))
           \<and> (case arg_results req of None \<Rightarrow> True | Some rf \<Rightarrow> results b' \<in> set rf)
           \<and> (\<exists>j \<in> J. getBuild builder (- j) = Some b')
           \<and> map_of (fold (keep_build req builder) is res) (KInt n) = Some (build_asDict b')"
  using assms
proof (induction "is" arbitrary: res b0)
  case Nil
  then show ?case by auto
next
  case (Cons i "is")
  from Cons.prems(6) have iJ: "i \<in> J" and sub: "set is \<subseteq> J" by auto
  from keep_build_cases[of req builder i res] show ?case
  proof
    assume "keep_build req builder i res = res"
    then show ?thesis using Cons.IH[OF Cons.prems(1-5) sub] by simp
  next
    assume "\<exists>b. getBuild builder (- i) = Some b
      \<and> (arg_codebases req = [] \<or> foundCodebasesInBuild builder b (arg_codebases req))
      \<and> (case arg_results req of None \<Rightarrow> True | Some rf \<Rightarrow> results b \<in> set rf)
      \<and> keep_build req builder i res = AList.update (KInt (getNumber b)) (build_asDict b) res"
    then obtain b where b: "getBuild builder (- i) = Some b"
      "arg_codebases req = [] \<or> foundCodebasesInBuild builder b (arg_codebases req)"
      "case arg_results req of None \<Rightarrow> True | Some rf \<Rightarrow> results b \<in> set rf"
      "keep_build req builder i res = AList.update (KInt (getNumber b)) (build_asDict b) res"
      by blast
    show ?thesis
    proof (cases "getNumber b = n")
      case True
      have m: "map_of (keep_build req builder i res) (KInt n) = Some (build_asDict b)"
        using b(4) True by (simp add: update_conv')
      have j: "\<exists>j \<in> J. getBuild builder (- j) = Some b" using iJ b(1) by blast
      from Cons.IH[OF m True b(2) b(3) j sub] show ?thesis by simp
    next
      case False
      have m: "map_of (keep_build req builder i res) (KInt n) = Some (build_asDict b0)"
        using b(4) False Cons.prems(1) by (simp add: update_conv')
      from Cons.IH[OF m Cons.prems(2-5) sub] show ?thesis by simp
    qed
  qed
qed

lemma keep_build_listed:
  assumes "i \<in> set is" and "set is \<subseteq> J"
      and "getBuild builder (- i) = Some b"
      and "arg_codebases req = [] \<or> foundCodebasesInBuild builder b (arg_codebases req)"
      and "case arg_results req of None \<Rightarrow> True | Some rf \<Rightarrow> results b \<in> set rf"
  shows "\<exists>b'. getNumber b' = getNumber b
           \<and> (arg_codebases req = [] \<or> foundCodebasesInBuild builder b' (arg_codebases req))
           \<and> (case arg_results req of None \<Rightarrow> True | Some rf \<Rightarrow> results b' \<in> set rf)
           \<and> (\<exists>j \<in> J. getBuild builder (- j) = Some b')
           \<and> map_of (fold (keep_build req builder) is res) (KInt (getNumber b)) = Some (build_asDict b')"
  using assms(1,2)
proof (induction "is" arbitrary: res)
  case Nil
  then show ?case by simp
next
  case (Cons a "is")
  from Cons.prems(2) have aJ: "a \<in> J" and sub: "set is \<subseteq> J" by auto
  show ?case
  proof (cases "i \<in> set is")
    case True
    from Cons.IH[OF True sub] show ?thesis by simp
  next
    case False
    then have ia: "a = i" using Cons.prems(1) by simp
    have k: "keep_build req builder a res = AList.update (KInt (getNumber b)) (build_asDict b) res"
      using assms(3-5) ia by (auto simp: keep_build_def)
    have m: "map_of (keep_build req builder a res) (KInt (getNumber b)) = Some (build_asDict b)"
      unfolding k by (simp add: update_conv')
    have j: "\<exists>j \<in> J. getBuild builder (- j) = Some b" using aJ ia assms(3) by blast
    from keep_build_kept[OF m refl assms(4,5) j sub] show ?thesis by simp
  qed
qed

lemma keep_build_first: "length (keep_build req builder i []) \<le> 1"
  by (auto simp: keep_build_def split: option.splits)

lemma upt_from_0: "0 < n \<Longrightarrow> map int [0..<n] = 0 # map int [1..<n]"
  by (simp add: upt_rec)

text \<open>
  C3, as the code has it. The rendering of \<^verbatim>\<open>_all\<close> is a dictionary with at most
  \<^verbatim>\<open>max\<close> entries, where \<^verbatim>\<open>max\<close> is the argument of that name and, without it,
  the configured size of the build cache. It lists the builds: every build that
  \<^verbatim>\<open>getBuild(-i)\<close> returns for some \<open>1 \<le> i < max\<close> and that passes the codebase and
  result filters of the request has an entry under its number, which is the rendering of
  such a build of that number. Apart from what the first turn of the loop left, at most
  one entry, the dictionary has nothing else.
\<close>

theorem all_builds_rendering:
  assumes "self < nxt st" and "cls (heap st self) = AllBuildsJsonResource builder"
      and "(case arg_max req of None \<Rightarrow> Inr (caches_Builds builder) | Some s \<Rightarrow> py_int s) = Inr m"
      and "\<forall>i \<in> set (map int [0..<nat m]). \<forall>b. getBuild builder (- i) = Some b \<longrightarrow> getSourceStamps b \<noteq> []"
  shows "\<exists>res r0 st'. AllBuildsJsonResource_asDict req builder st self postpath = Inr (JDict res, st')
           \<and> length res \<le> nat m
           \<and> (\<forall>i b. 1 \<le> i \<and> i < m \<and> getBuild builder (- i) = Some b
                 \<and> (arg_codebases req = [] \<or> foundCodebasesInBuild builder b (arg_codebases req))
                 \<and> (case arg_results req of None \<Rightarrow> True | Some rf \<Rightarrow> results b \<in> set rf)
                 \<longrightarrow> (\<exists>j b'. 1 \<le> j \<and> j < m \<and> getBuild builder (- j) = Some b'
                        \<and> getNumber b' = getNumber b
                        \<and> (arg_codebases req = [] \<or> foundCodebasesInBuild builder b' (arg_codebases req))
                        \<and> (case arg_results req of None \<Rightarrow> True | Some rf \<Rightarrow> results b' \<in> set rf)
                        \<and> map_of res (KInt (getNumber b)) = Some (build_asDict b')))
           \<and> length r0 \<le> 1
           \<and> (\<forall>(k, v) \<in> set res. (k, v) \<in> set r0 \<or>
                 (\<exists>i b. 1 \<le> i \<and> i < m \<and> getBuild builder (- i) = Some b
                    \<and> k = KInt (getNumber b) \<and> v = build_asDict b
                    \<and> (arg_codebases req = [] \<or> foundCodebasesInBuild builder b (arg_codebases req))
                    \<and> (case arg_results req of None \<Rightarrow> True | Some rf \<Rightarrow> results b \<in> set rf)))"
proof -
  let ?all = "map int [0..<nat m]"
  let ?is = "map int [1..<nat m]"
  let ?r0 = "keep_build req builder 0 []"
  let ?res = "fold (keep_build req builder) ?all []"
  let ?J = "{j. 1 \<le> j \<and> j < m}"
  from AllBuildsJsonResource_asDict_fold[OF assms, of postpath] obtain st' where
    a: "AllBuildsJsonResource_asDict req builder st self postpath = Inr (JDict ?res, st')" by blast
  have l: "length ?res \<le> nat m"
    using keep_build_length[of req builder ?all "[]"] by simp
  have sub: "set ?is \<subseteq> ?J" by auto
  have r0: "length ?r0 \<le> 1" by (rule keep_build_first)
  have low: "\<exists>j b'. 1 \<le> j \<and> j < m \<and> getBuild builder (- j) = Some b'
                        \<and> getNumber b' = getNumber b
                        \<and> (arg_codebases req = [] \<or> foundCodebasesInBuild builder b' (arg_codebases req))
                        \<and> (case arg_results req of None \<Rightarrow> True | Some rf \<Rightarrow> results b' \<in> set rf)
                        \<and> map_of ?res (KInt (getNumber b)) = Some (build_asDict b')"
    if h: "1 \<le> i" "i < m" "getBuild builder (- i) = Some b"
          "arg_codebases req = [] \<or> foundCodebasesInBuild builder b (arg_codebases req)"
          "case arg_results req of None \<Rightarrow> True | Some rf \<Rightarrow> results b \<in> set rf" for i b
  proof -
    from h(1,2) have pos: "0 < nat m" by simp
    have split: "?res = fold (keep_build req builder) ?is ?r0"
      unfolding upt_from_0[OF pos] by simp
    have "nat i \<in> set [1..<nat m]" using h(1,2) by auto
    then have "int (nat i) \<in> set ?is" by (simp only: set_map image_eqI)
    then have mem: "i \<in> set ?is" using h(1) by simp
    from keep_build_listed[OF mem sub h(3,4,5), of ?r0] show ?thesis
      unfolding split by blast
  qed
  have up: "(k, v) \<in> set ?r0 \<or>
                 (\<exists>i b. 1 \<le> i \<and> i < m \<and> getBuild builder (- i) = Some b
                    \<and> k = KInt (getNumber b) \<and> v = build_asDict b
                    \<and> (arg_codebases req = [] \<or> foundCodebasesInBuild builder b (arg_codebases req))
                    \<and> (case arg_results req of None \<Rightarrow> True | Some rf \<Rightarrow> results b \<in> set rf))"
    if h: "(k, v) \<in> set ?res" for k v
  proof (cases "0 < nat m")
    case True
    have split: "?res = fold (keep_build req builder) ?is ?r0"
      unfolding upt_from_0[OF True] by simp
    from keep_build_entries[OF h[unfolded split]] sub show ?thesis by blast
  next
    case False
    then show ?thesis using h by simp
  qed
  show ?thesis
    apply (rule exI[of _ ?res], rule exI[of _ ?r0], rule exI[of _ st'])
    using a l r0 low up by blast
qed

lemma capped_facts:
  "1 < nxt capped_state"
  "cls (heap capped_state 1) = AllBuildsJsonResource capped"
  "(case arg_max no_args of None \<Rightarrow> Inr (caches_Builds capped) | Some s \<Rightarrow> py_int s) = Inr 3"
  "\<forall>i \<in> set (map int [0..<nat 3]). \<forall>b. getBuild capped (- i) = Some b \<longrightarrow> getSourceStamps b \<noteq> []"
  by (simp_all add: capped_state_def BuildsJsonResource_init_def new_def putChild_def empty_state_def Let_def
        no_args_def capped_def demo_builder_def getBuild_cached_def demo_history_def demo_build_def
        upt_rec find_Some_iff split: if_splits)

lemma capped_fold:
  "fold (keep_build no_args capped) (map int [0..<nat 3]) []
     = [(KInt 5, build_asDict (demo_build 5)), (KInt 4, build_asDict (demo_build 4))]"
  by (simp add: keep_build_def no_args_def capped_def demo_builder_def getBuild_cached_def
        demo_history_def demo_build_def upt_rec)

text \<open>
  The theorem at the builder with five builds, three of them cached, and a request
  without arguments.
\<close>

theorem all_builds_rendering_witness:
  "\<exists>res r0 st'. AllBuildsJsonResource_asDict no_args capped capped_state 1 [] = Inr (JDict res, st')
           \<and> length res \<le> nat 3
           \<and> (\<forall>i b. 1 \<le> i \<and> i < 3 \<and> getBuild capped (- i) = Some b
                 \<and> (arg_codebases no_args = [] \<or> foundCodebasesInBuild capped b (arg_codebases no_args))
                 \<and> (case arg_results no_args of None \<Rightarrow> True | Some rf \<Rightarrow> results b \<in> set rf)
                 \<longrightarrow> (\<exists>j b'. 1 \<le> j \<and> j < 3 \<and> getBuild capped (- j) = Some b'
                        \<and> getNumber b' = getNumber b
                        \<and> (arg_codebases no_args = [] \<or> foundCodebasesInBuild capped b' (arg_codebases no_args))
                        \<and> (case arg_results no_args of None \<Rightarrow> True | Some rf \<Rightarrow> results b' \<in> set rf)
                        \<and> map_of res (KInt (getNumber b)) = Some (build_asDict b')))
           \<and> length r0 \<le> 1
           \<and> (\<forall>(k, v) \<in> set res. (k, v) \<in> set r0 \<or>
                 (\<exists>i b. 1 \<le> i \<and> i < 3 \<and> getBuild capped (- i) = Some b
                    \<and> k = KInt (getNumber b) \<and> v = build_asDict b
                    \<and> (arg_codebases no_args = [] \<or> foundCodebasesInBuild capped b (arg_codebases no_args))
                    \<and> (case arg_results no_args of None \<Rightarrow> True | Some rf \<Rightarrow> results b \<in> set rf)))"
  by (rule all_builds_rendering[OF capped_facts])

text \<open>
  The claim as stated fails: with the builds 1 to 5 in the history, a cache of size 3 and
  no filter, the rendering of \<^verbatim>\<open>_all\<close> has the builds 5 and 4, while the scan of the
  history that the last-N resource uses yields all five. The loop makes \<^verbatim>\<open>max\<close> turns,
  here the size of the cache, and the indices below \<open>-3\<close>, where the builds 2 and 1
  would be, are never asked for; \<^verbatim>\<open>getBuild\<close> has no build there either.
\<close>

theorem all_builds_capped:
  "map_sum id fst (AllBuildsJsonResource_asDict no_args capped capped_state 1 [])
     = Inr (JDict [(KInt 5, build_asDict (demo_build 5)), (KInt 4, build_asDict (demo_build 4))])
   \<and> map getNumber (generateFinishedBuilds capped (arg_branches no_args) (arg_codebases no_args)
          (arg_results no_args) 15) = [5, 4, 3, 2, 1]
   \<and> map_option getNumber (getBuild capped (- 3)) = Some 3
   \<and> getBuild capped (- 4) = None \<and> getBuild capped (- 5) = None"
proof -
  from AllBuildsJsonResource_asDict_fold[OF capped_facts, of "[]"] obtain st' where
    "AllBuildsJsonResource_asDict no_args capped capped_state 1 []
       = Inr (JDict (fold (keep_build no_args capped) (map int [0..<nat 3]) []), st')" by blast
  then have "map_sum id fst (AllBuildsJsonResource_asDict no_args capped capped_state 1 [])
     = Inr (JDict [(KInt 5, build_asDict (demo_build 5)), (KInt 4, build_asDict (demo_build 4))])"
    unfolding capped_fold by simp
  moreover have "map getNumber (generateFinishedBuilds capped (arg_branches no_args) (arg_codebases no_args)
          (arg_results no_args) 15) = [5, 4, 3, 2, 1]"
    by (simp add: capped_def demo_builder_def generateFinishedBuilds_scan_def no_args_def
          demo_history_def demo_build_def upt_rec)
  moreover have "map_option getNumber (getBuild capped (- 3)) = Some 3
      \<and> getBuild capped (- 4) = None \<and> getBuild capped (- 5) = None"
    by (simp add: capped_def demo_builder_def getBuild_cached_def demo_history_def demo_build_def upt_rec)
  ultimately show ?thesis by simp
qed

section \<open>Composing a selection\<close>

lemma walk_Cons:
  assumes "\<not> isLeaf M child"
  shows "walk M st child (p # ps) node =
     (case getChildWithDefault M st child p ps of
        Inl e \<Rightarrow> Inl e
      | Inr (child', st') \<Rightarrow>
          (case walk M st' child' ps [] of
             Inl e \<Rightarrow> Inl e
           | Inr (sub, st'') \<Rightarrow> Inr (AList.update (KStr p) (JDict sub) node, st'')))"
  using assms by simp



section \<open>Walks in the example tree\<close>

lemma json_methods_simps:
  "isLeaf (json_methods d req) n = False"
  "getChildWithDefault (json_methods d req) st self p pp
     = JsonResource_getChildWithDefault st self (PStr p) pp"
  "hasattr_asDict (json_methods d req) st self = isJsonResource (cls (heap st self))"
  "asDict (json_methods d req) = asDict_depth d req"
  by (simp_all add: json_methods_def)

lemma BuildJsonResource_init_plain:
  assumes "getSourceStamps b = ss # rest" and "changes ss = []"
  shows "BuildJsonResource_init st b = Inr (nxt st, built st b)"
    and "nxt (built st b) = nxt st + 4"
    and "heap (built st b) (nxt st) =
           \<lparr>cls = BuildJsonResource b,
            children = [(''source_stamp'', nxt st + 1), (''steps'', nxt st + 3)]\<rparr>"
    and "heap (built st b) (nxt st + 1) =
           \<lparr>cls = SourceStampJsonResource ss, children = [(''changes'', nxt st + 2)]\<rparr>"
    and "heap (built st b) (nxt st + 2) = \<lparr>cls = ChangesJsonResource, children = []\<rparr>"
    and "heap (built st b) (nxt st + 3) = \<lparr>cls = BuildStepsJsonResource b, children = []\<rparr>"
    and "\<And>r. r < nxt st \<Longrightarrow> heap (built st b) r = heap st r"
  using assms
  by (simp_all add: built_def BuildJsonResource_init_def SourceStampJsonResource_init_def
        ChangesJsonResource_init_def new_def putChild_def Let_def)

lemma resolve_BuildSteps:
  assumes "cls (heap st self) = BuildStepsJsonResource b"
      and "map_of (children (heap st self)) s = None"
      and "s \<noteq> ''help''" and "s \<noteq> [] \<or> postpath \<noteq> []"
  shows "JsonResource_getChildWithDefault st self (PStr s) postpath
           = BuildStepsJsonResource_getChild st self b (PStr s)"
  unfolding JsonResource_getChildWithDefault_def
  using assms
  by (subst resolve.simps) (auto simp: getChildWithDefault_static_def Let_def)

lemma demo_build_stamps:
  "getSourceStamps (demo_build n) =
     [\<lparr>changes = [], source_stamp_asDict = JDict [(KStr ''branch'', JStr ''trunk'')]\<rparr>]"
  "changes \<lparr>changes = [], source_stamp_asDict = JDict [(KStr ''branch'', JStr ''trunk'')]\<rparr> = []"
  by (simp_all add: demo_build_def)

lemmas demo_built = BuildJsonResource_init_plain[OF demo_build_stamps]

lemma walk_json_Cons:
  "walk (json_methods d req) st child (p # ps) node =
     (case JsonResource_getChildWithDefault st child (PStr p) ps of
        Inl e \<Rightarrow> Inl e
      | Inr (child', st') \<Rightarrow>
          (case walk (json_methods d req) st' child' ps [] of
             Inl e \<Rightarrow> Inl e
           | Inr (sub, st'') \<Rightarrow> Inr (AList.update (KStr p) (JDict sub) node, st'')))"
  by (simp add: json_methods_simps)

lemma walk_json_Nil:
  "walk (json_methods (Suc d) req) st child [] node =
     (case (if isJsonResource (cls (heap st child))
            then asDict_cls (asDict_depth d req) req (cls (heap st child)) st child []
            else Inr (not_available, st)) of
        Inl e \<Rightarrow> Inl e
      | Inr (child_dict, st') \<Rightarrow>
          (case dict_update node child_dict of Inl e \<Rightarrow> Inl e | Inr node' \<Rightarrow> Inr (node', st')))"
  by (simp add: render_into_def json_methods_simps)

lemma walk_demo_Cons:
  "walk demo_methods st child (p # ps) node =
     (case JsonResource_getChildWithDefault st child (PStr p) ps of
        Inl e \<Rightarrow> Inl e
      | Inr (child', st') \<Rightarrow>
          (case walk demo_methods st' child' ps [] of
             Inl e \<Rightarrow> Inl e
           | Inr (sub, st'') \<Rightarrow> Inr (AList.update (KStr p) (JDict sub) node, st'')))"
  unfolding demo_methods_def by (rule walk_json_Cons)

lemma walk_demo_Nil:
  "walk demo_methods st child [] node =
     (case (if isJsonResource (cls (heap st child))
            then asDict_cls (asDict_depth 0 no_args) no_args (cls (heap st child)) st child []
            else Inr (not_available, st)) of
        Inl e \<Rightarrow> Inl e
      | Inr (child_dict, st') \<Rightarrow>
          (case dict_update node child_dict of Inl e \<Rightarrow> Inl e | Inr node' \<Rightarrow> Inr (node', st')))"
  unfolding demo_methods_def One_nat_def by (rule walk_json_Nil)

lemmas demo_state'_built = demo_state'_def

lemmas st1_heap = demo_built(2-6)[of demo_state 10, folded demo_state'_built, unfolded demo_state_heap(1), simplified]

lemma st1_low: "heap demo_state' 0 = heap demo_state 0" "heap demo_state' 1 = heap demo_state 1"
  using demo_built(7)[of _ demo_state 10] by (simp_all add: demo_state'_built demo_state_heap(1))

lemma st1_shape:
  "cls (heap demo_state' 0) = BuildsJsonResource demo"
  "children (heap demo_state' 0) = [(''_all'', 1)]"
  "cls (heap demo_state' 1) = AllBuildsJsonResource demo"
  "children (heap demo_state' 1) = []"
  by (simp_all only: st1_low demo_state_heap)

lemmas st2_heap = demo_built(2-6)[of demo_state' 10, folded demo_state''_def, unfolded st1_heap(1), simplified]

lemma resolve_latest:
  "JsonResource_getChildWithDefault demo_state 0 (PStr ''-1'') pp = Inr (2, demo_state')"
  "JsonResource_getChildWithDefault demo_state' 0 (PStr ''-1'') pp = Inr (6, demo_state'')"
proof -
  show "JsonResource_getChildWithDefault demo_state 0 (PStr ''-1'') pp = Inr (2, demo_state')"
    using resolve_int_under_Builds[OF demo_latest demo_state_heap(2,3,6,7), of pp]
          demo_built(1)[of demo_state 10]
    by (simp only: demo_state'_built demo_state_heap(1))
  show "JsonResource_getChildWithDefault demo_state' 0 (PStr ''-1'') pp = Inr (6, demo_state'')"
    using resolve_int_under_Builds[OF demo_latest st1_shape, of pp]
          demo_built(1)[of demo_state' 10]
    by (simp only: demo_state''_def st1_heap(1))
qed

lemma resolve_static_child':
  assumes "isJsonResource (cls (heap st self))"
      and "map_of (children (heap st self)) s \<noteq> None"
      and "s \<noteq> ''help''" and "s \<noteq> []"
  shows "JsonResource_getChildWithDefault st self (PStr s) postpath
           = Inr (the (map_of (children (heap st self)) s), st)"
  using resolve_static_child[of st self s _ postpath] assms by auto

lemma demo_steps_dict:
  "BuildStepsJsonResource_asDict (demo_build n) =
     JDict [(KInt 0, JDict [(KStr ''name'', JStr ''compile'')]),
            (KInt 1, JDict [(KStr ''name'', JStr ''test'')])]"
  by (simp add: BuildStepsJsonResource_asDict_def demo_build_def upt_rec)

lemma walk_latest_steps:
  "walk demo_methods demo_state 0 [''-1'', ''steps''] node =
     Inr (AList.update (KStr ''-1'')
            (JDict [(KStr ''steps'', BuildStepsJsonResource_asDict (demo_build 10))]) node, demo_state')"
  "walk demo_methods demo_state' 0 [''-1'', ''steps''] node =
     Inr (AList.update (KStr ''-1'')
            (JDict [(KStr ''steps'', BuildStepsJsonResource_asDict (demo_build 10))]) node, demo_state'')"
  by (simp_all add: walk_demo_Cons walk_demo_Nil resolve_latest st1_heap st2_heap
        resolve_static_child' demo_steps_dict update_items_def del: walk.simps)

lemma walk_latest_source_stamp:
  "walk demo_methods demo_state 0 [''-1'', ''source_stamp''] node =
     Inr (AList.update (KStr ''-1'')
            (JDict [(KStr ''source_stamp'', JDict [(KStr ''branch'', JStr ''trunk'')])]) node, demo_state')"
  "walk demo_methods demo_state' 0 [''-1'', ''source_stamp''] node =
     Inr (AList.update (KStr ''-1'')
            (JDict [(KStr ''source_stamp'', JDict [(KStr ''branch'', JStr ''trunk'')])]) node, demo_state'')"
  by (simp_all add: walk_demo_Cons walk_demo_Nil resolve_latest st1_heap st2_heap
        resolve_static_child' update_items_def del: walk.simps)

lemma select_facts:
  "sort_select [''-1/steps'', ''-1/source_stamp''] = [''-1/steps'', ''-1/source_stamp'']"
  "sort_select [''-1/source_stamp'', ''-1/steps''] = [''-1/source_stamp'', ''-1/steps'']"
  "sort_select [''-1/steps''] = [''-1/steps'']"
  "segments ''-1/steps'' = [''-1'', ''steps'']"
  "segments ''-1/source_stamp'' = [''-1'', ''source_stamp'']"
  by (simp_all add: sort_select_def strip_def count_char_def segments_def)

lemma demo_not_leaf: "\<not> isLeaf demo_methods n"
  by (simp add: demo_methods_def json_methods_def)

lemma demo_build_dict:
  "build_asDict (demo_build 10) =
     JDict [(KStr ''builderName'', JStr ''demo''), (KStr ''number'', JInt 10), (KStr ''results'', JInt 0)]"
  "build_asDict (demo_build 7) =
     JDict [(KStr ''builderName'', JStr ''demo''), (KStr ''number'', JInt 7), (KStr ''results'', JInt 1)]"
  by (simp_all add: demo_build_def)

lemma walk_latest:
  "walk demo_methods demo_state 0 [''-1''] node =
     Inr (AList.update (KStr ''-1'') (build_asDict (demo_build 10)) node, demo_state')"
  "walk demo_methods demo_state' 0 [''-1''] node =
     Inr (AList.update (KStr ''-1'') (build_asDict (demo_build 10)) node, demo_state'')"
  by (simp_all add: walk_demo_Cons walk_demo_Nil resolve_latest st1_heap st2_heap
        demo_build_dict update_items_def del: walk.simps)

text \<open>
  C1. The walk executes \<^verbatim>\<open>node[pathElement] = {}\<close> for every segment, whether or not the
  mapping \<^verbatim>\<open>node\<close> already holds one under that segment, so it never reuses what an
  earlier path created. Under the builds resource of \<^verbatim>\<open>demo\<close>, the selection of
  \<^verbatim>\<open>-1/steps\<close> alone yields the steps of the latest build; selecting
  \<^verbatim>\<open>-1/source_stamp\<close> with it, the two paths share the prefix \<^verbatim>\<open>-1\<close>, the second
  walk replaces what the first placed there, and only the path that was given last is in
  the document: the source stamp in one order of the arguments, the steps in the other.
\<close>

theorem sibling_selection_discarded:
  "map_sum id fst (content_data demo_methods demo_state 0 (Some [''-1/steps'']) [])
     = Inr (JDict [(KStr ''-1'', JDict [(KStr ''steps'', BuildStepsJsonResource_asDict (demo_build 10))])])
   \<and> map_sum id fst (content_data demo_methods demo_state 0
         (Some [''-1/steps'', ''-1/source_stamp'']) [])
     = Inr (JDict [(KStr ''-1'', JDict [(KStr ''source_stamp'', JDict [(KStr ''branch'', JStr ''trunk'')])])])
   \<and> map_sum id fst (content_data demo_methods demo_state 0
         (Some [''-1/source_stamp'', ''-1/steps'']) [])
     = Inr (JDict [(KStr ''-1'', JDict [(KStr ''steps'', BuildStepsJsonResource_asDict (demo_build 10))])])"
  by (simp add: content_data_def select_facts walk_latest_steps walk_latest_source_stamp del: walk.simps)

section \<open>What resolving and rendering leave of the heap\<close>
































section \<open>Resolving and rendering in a heap at other addresses\<close>










































section \<open>A path and its descendant\<close>





















section \<open>Segments that cannot be resolved\<close>

lemma resolve_step_segments:
  "JsonResource_getChildWithDefault demo_state' 5 (PStr ''5'') [] = Inl IndexError"
  "JsonResource_getChildWithDefault demo_state' 5 (PStr ''bogus'') [] = Inr (new demo_state' NoResource)"
proof -
  have c: "cls (heap demo_state' 5) = BuildStepsJsonResource (demo_build 10)"
          "map_of (children (heap demo_state' 5)) ''5'' = None"
          "map_of (children (heap demo_state' 5)) ''bogus'' = None"
    by (simp_all add: st1_heap)
  show "JsonResource_getChildWithDefault demo_state' 5 (PStr ''5'') [] = Inl IndexError"
    using resolve_BuildSteps[OF c(1,2), of "[]"]
    by (simp add: BuildStepsJsonResource_getChild_def path_is_int_def int_of_path_def IS_INT_match_def
          isdigit_def isspace_def py_int_def digits_value_def list_index_def demo_build_def)
  show "JsonResource_getChildWithDefault demo_state' 5 (PStr ''bogus'') [] = Inr (new demo_state' NoResource)"
    using resolve_BuildSteps[OF c(1,3), of "[]"]
    by (simp add: BuildStepsJsonResource_getChild_def path_is_int_def IS_INT_match_def
          isdigit_def steps_dict_get_def demo_build_def upt_rec)
qed

text \<open>
  C9. A step index out of range is a segment that cannot be resolved, and
  \<^verbatim>\<open>self.build_status.getSteps()[int(path)]\<close> raises \<^verbatim>\<open>IndexError\<close> for it: the
  selection of \<^verbatim>\<open>-2\<close> and \<^verbatim>\<open>-1/steps/5\<close> produces no document at all. A step
  name that does not exist resolves to \<^verbatim>\<open>NoResource\<close> instead, and its slot gets the
  marker.
\<close>

theorem unresolved_step_index_raises:
  "content_data demo_methods demo_state 0 (Some [''-2'', ''-1/steps/5'']) [] = Inl IndexError
   \<and> map_sum id fst (content_data demo_methods demo_state 0 (Some [''-1/steps/bogus'']) [])
     = Inr (JDict [(KStr ''-1'', JDict [(KStr ''steps'', JDict [(KStr ''bogus'', not_available)])])])"
proof -
  have s: "sort_select [''-2'', ''-1/steps/5''] = [''-1/steps/5'', ''-2'']"
          "sort_select [''-1/steps/bogus''] = [''-1/steps/bogus'']"
          "segments ''-1/steps/5'' = [''-1'', ''steps'', ''5'']"
          "segments ''-1/steps/bogus'' = [''-1'', ''steps'', ''bogus'']"
    by (simp_all add: sort_select_def strip_def count_char_def segments_def)
  have n: "cls (heap (snd (new demo_state' NoResource)) (fst (new demo_state' NoResource))) = NoResource"
    by (simp add: new_def)
  have 1: "walk demo_methods demo_state 0 [''-1'', ''steps'', ''5''] [] = Inl IndexError"
    by (simp add: walk_demo_Cons resolve_latest st1_heap resolve_static_child' resolve_step_segments
          del: walk.simps)
  have 2: "walk demo_methods demo_state 0 [''-1'', ''steps'', ''bogus''] []
           = Inr ([(KStr ''-1'', JDict [(KStr ''steps'', JDict [(KStr ''bogus'', not_available)])])],
                  snd (new demo_state' NoResource))"
    using n
    by (simp add: walk_demo_Cons walk_demo_Nil resolve_latest st1_heap resolve_static_child'
          resolve_step_segments not_available_def update_items_def split_beta del: walk.simps)
  show ?thesis
    by (simp add: content_data_def s 1 2 del: walk.simps)
qed

end
